theory Spec2Isabelle
  imports Complex_Main
begin

section \<open>JavaScript values\<close>

text \<open>
  The values that flow through \<^verbatim>\<open>getFingerprint\<close>: header values, the attributes of
  the sample, whatever \<^verbatim>\<open>JSON.parse\<close> returns, and the caller's options. An object is
  the list of its own enumerable properties in the order \<^verbatim>\<open>for ... in\<close> and
  \<^verbatim>\<open>Object.keys\<close> enumerate them; a property is read through \<open>map_of\<close>, so the first
  entry of a key is the property. A string is a list of characters, one per code unit.
  A value of this type has the built-in prototype of its kind. Functions are not values
  of the model.
\<close>

datatype jsval =
    JUndefined
  | JNull
  | JBool bool
  | JNum real
  | JStr string
  | JArr "jsval list"
  | JObj "(string \<times> jsval) list"

type_synonym obj = "(string \<times> jsval) list"

text \<open>What the source can throw: \<^verbatim>\<open>ow\<close>'s \<^verbatim>\<open>ArgumentError\<close> with the label of the offending
  property, the \<^verbatim>\<open>TypeError\<close> of a method call or property read on a value that has
  none, the \<^verbatim>\<open>SyntaxError\<close> of \<^verbatim>\<open>JSON.parse\<close>, and whatever a collaborator throws.\<close>

datatype error =
    ArgumentError string
  | TypeError
  | SyntaxError
  | ExternalError string

definition obj_has :: "obj \<Rightarrow> string \<Rightarrow> bool" where
  \<comment> \<open>\<^verbatim>\<open>k in o\<close>\<close>
  "obj_has ob k = (k \<in> set (map fst ob))"

definition obj_get :: "obj \<Rightarrow> string \<Rightarrow> jsval" where
  \<comment> \<open>\<^verbatim>\<open>o[k]\<close>: a missing property reads as \<^verbatim>\<open>undefined\<close>\<close>
  "obj_get ob k = (case map_of ob k of None \<Rightarrow> JUndefined | Some v \<Rightarrow> v)"

fun obj_set :: "obj \<Rightarrow> string \<Rightarrow> jsval \<Rightarrow> obj" where
  \<comment> \<open>\<^verbatim>\<open>o[k] = v\<close>: an existing property keeps its place, a new one goes last. (JavaScript
      enumerates a new integer-like key before the others; no loop of the source enumerates
      an object it has assigned to, so only \<open>map_of\<close> of the result matters.)\<close>
  "obj_set [] k v = [(k, v)]"
| "obj_set (p # ps) k v = (if fst p = k then (k, v) # ps else p # obj_set ps k v)"

definition obj_delete :: "obj \<Rightarrow> string \<Rightarrow> obj" where
  \<comment> \<open>\<^verbatim>\<open>delete o[k]\<close>\<close>
  "obj_delete ob k = filter (\<lambda>p. fst p \<noteq> k) ob"

definition obj_keys :: "obj \<Rightarrow> string list" where
  "obj_keys ob = remdups (map fst ob)"

subsection \<open>Index keys of arrays and strings\<close>

definition digit_char :: "nat \<Rightarrow> char" where
  "digit_char d = ''0123456789'' ! d"

function show_nat :: "nat \<Rightarrow> string" where
  "show_nat n = (if n < 10 then [digit_char n] else show_nat (n div 10) @ [digit_char (n mod 10)])"
  by pat_completeness auto
termination
  by (relation "measure id") auto

declare show_nat.simps [simp del]

definition index_keys :: "nat \<Rightarrow> string list" where
  \<comment> \<open>the keys \<^verbatim>\<open>"0"\<close>, \<^verbatim>\<open>"1"\<close>, ... of an array or string of the given length\<close>
  "index_keys n = map show_nat [0..<n]"

definition index_of_key :: "nat \<Rightarrow> string \<Rightarrow> nat option" where
  "index_of_key n k = find (\<lambda>i. show_nat i = k) [0..<n]"

definition for_in_keys :: "jsval \<Rightarrow> string list" where
  \<comment> \<open>the keys \<^verbatim>\<open>for (const attribute in v)\<close> visits; none for a number, a boolean,
      \<^verbatim>\<open>null\<close> and \<^verbatim>\<open>undefined\<close>\<close>
  "for_in_keys v =
     (case v of
        JObj ob \<Rightarrow> obj_keys ob
      | JArr xs \<Rightarrow> index_keys (length xs)
      | JStr s \<Rightarrow> index_keys (length s)
      | _ \<Rightarrow> [])"

definition inherited :: "string \<Rightarrow> jsval" where
  \<comment> \<open>what \<^verbatim>\<open>v[k]\<close> reads when \<open>v\<close> does not own \<open>k\<close>. For \<^verbatim>\<open>__proto__\<close> it is the
      built-in prototype of \<open>v\<close>, an object with no enumerable property, here \<open>JObj []\<close>;
      for a name that no built-in prototype has it is \<^verbatim>\<open>undefined\<close>. The name of another
      built-in member (\<^verbatim>\<open>toString\<close>, \<^verbatim>\<open>constructor\<close>) would read a function: such a
      read is outside the model, which answers \<^verbatim>\<open>undefined\<close>. The source makes one only
      in a hoisting loop that has overwritten its own container, and then only the value
      stored under that name is affected.\<close>
  "inherited k = (if k = ''__proto__'' then JObj [] else JUndefined)"

definition prop_of :: "jsval \<Rightarrow> string \<Rightarrow> jsval" where
  \<comment> \<open>\<^verbatim>\<open>v[k]\<close> for a value that is neither \<^verbatim>\<open>null\<close> nor \<^verbatim>\<open>undefined\<close>\<close>
  "prop_of v k =
     (case v of
        JObj ob \<Rightarrow> if obj_has ob k then obj_get ob k else inherited k
      | JArr xs \<Rightarrow>
          (case index_of_key (length xs) k of
             Some i \<Rightarrow> xs ! i
           | None \<Rightarrow> if k = ''length'' then JNum (real (length xs)) else inherited k)
      | JStr s \<Rightarrow>
          (case index_of_key (length s) k of
             Some i \<Rightarrow> JStr [s ! i]
           | None \<Rightarrow> if k = ''length'' then JNum (real (length s)) else inherited k)
      | JNum _ \<Rightarrow> inherited k
      | JBool _ \<Rightarrow> inherited k
      | _ \<Rightarrow> JUndefined)"

definition has_own :: "jsval \<Rightarrow> string \<Rightarrow> bool" where
  \<comment> \<open>whether \<open>v\<close> owns the property \<open>k\<close>\<close>
  "has_own v k =
     (case v of
        JObj ob \<Rightarrow> obj_has ob k
      | JArr xs \<Rightarrow> index_of_key (length xs) k \<noteq> None \<or> k = ''length''
      | JStr s \<Rightarrow> index_of_key (length s) k \<noteq> None \<or> k = ''length''
      | _ \<Rightarrow> False)"

definition get_prop :: "jsval \<Rightarrow> string \<Rightarrow> error + jsval" where
  \<comment> \<open>\<^verbatim>\<open>v[k]\<close>: reading a property of \<^verbatim>\<open>null\<close> or \<^verbatim>\<open>undefined\<close> throws\<close>
  "get_prop v k =
     (case v of JUndefined \<Rightarrow> Inl TypeError | JNull \<Rightarrow> Inl TypeError | _ \<Rightarrow> Inr (prop_of v k))"

section \<open>The object that becomes the fingerprint\<close>

text \<open>
  Lines 92 and 99 assign to the fingerprint under names taken from the sample. Under the
  name \<^verbatim>\<open>__proto__\<close> such an assignment adds no property: it reaches the setter of
  \<^verbatim>\<open>Object.prototype\<close>, which replaces the prototype of the fingerprint when the value is
  an object or \<^verbatim>\<open>null\<close> and does nothing otherwise. After that, \<^verbatim>\<open>in\<close> (lines 90 and 97)
  and a property read also see what the new prototype owns, while \<^verbatim>\<open>delete\<close> removes own
  properties only. So the fingerprint is its own properties together with its prototype:
  the built-in one it starts with, none, or a value of the sample.
\<close>

datatype prototype =
    Object_prototype
  | Null_prototype
  | Value_prototype jsval

record js_object =
  props :: obj
  proto :: prototype

definition plain_object :: "obj \<Rightarrow> js_object" where
  \<comment> \<open>an object as the network returns it\<close>
  "plain_object ob = \<lparr>props = ob, proto = Object_prototype\<rparr>"

definition fp_in :: "js_object \<Rightarrow> string \<Rightarrow> bool" where
  \<comment> \<open>\<^verbatim>\<open>k in fingerprint\<close>, for a name that no built-in prototype has\<close>
  "fp_in F k =
     (obj_has (props F) k
      \<or> (case proto F of Value_prototype v \<Rightarrow> has_own v k | _ \<Rightarrow> False))"

definition fp_get :: "js_object \<Rightarrow> string \<Rightarrow> jsval" where
  \<comment> \<open>\<^verbatim>\<open>fingerprint[k]\<close>, for a name that no built-in prototype has\<close>
  "fp_get F k =
     (if obj_has (props F) k then obj_get (props F) k
      else (case proto F of Value_prototype v \<Rightarrow> prop_of v k | _ \<Rightarrow> JUndefined))"

definition setter_reached :: "js_object \<Rightarrow> bool" where
  \<comment> \<open>whether an assignment to \<^verbatim>\<open>__proto__\<close> finds the setter of \<^verbatim>\<open>Object.prototype\<close>: not
      when the fingerprint, or the value it inherits from, owns a property of that name,
      and not when it has no prototype\<close>
  "setter_reached F =
     (\<not> obj_has (props F) ''__proto__''
      \<and> (case proto F of
            Object_prototype \<Rightarrow> True
          | Null_prototype \<Rightarrow> False
          | Value_prototype v \<Rightarrow> \<not> has_own v ''__proto__''))"

definition fp_set :: "js_object \<Rightarrow> string \<Rightarrow> jsval \<Rightarrow> js_object" where
  \<comment> \<open>\<^verbatim>\<open>fingerprint[k] = v\<close>\<close>
  "fp_set F k v =
     (if k = ''__proto__'' \<and> setter_reached F
      then (case v of
              JObj _ \<Rightarrow> F\<lparr>proto := Value_prototype v\<rparr>
            | JArr _ \<Rightarrow> F\<lparr>proto := Value_prototype v\<rparr>
            | JNull \<Rightarrow> F\<lparr>proto := Null_prototype\<rparr>
            | _ \<Rightarrow> F)
      else F\<lparr>props := obj_set (props F) k v\<rparr>)"

definition fp_delete :: "js_object \<Rightarrow> string \<Rightarrow> js_object" where
  \<comment> \<open>\<^verbatim>\<open>delete fingerprint[k]\<close>\<close>
  "fp_delete F k = F\<lparr>props := obj_delete (props F) k\<rparr>"

section \<open>The constants of the module\<close>

definition STRINGIFIED_PREFIX :: string where
  "STRINGIFIED_PREFIX = ''*STRINGIFIED*''"

definition MISSING_VALUE_DATASET_TOKEN :: string where
  "MISSING_VALUE_DATASET_TOKEN = ''*MISSING_VALUE*''"

section \<open>Option validation\<close>

text \<open>
  The shapes are data of the source; the predicates of the \<^verbatim>\<open>ow\<close> package they are
  built from are given the meaning that package documents: \<^verbatim>\<open>optional\<close> also accepts
  \<^verbatim>\<open>undefined\<close>, \<^verbatim>\<open>array.ofType(p)\<close> accepts an array whose every element satisfies
  \<open>p\<close>, \<^verbatim>\<open>any\<close> accepts what one of its predicates accepts, and \<^verbatim>\<open>object.exactShape\<close>
  accepts an object whose every property of the shape satisfies its predicate and that
  has no other key.
\<close>

datatype ow_predicate =
    ow_string
  | ow_number
  | ow_optional ow_predicate
  | ow_array_ofType ow_predicate
  | ow_any "ow_predicate list"
  | ow_object_exactShape "(string \<times> ow_predicate) list"

definition is_object :: "jsval \<Rightarrow> bool" where
  "is_object v = (case v of JObj _ \<Rightarrow> True | JArr _ \<Rightarrow> True | _ \<Rightarrow> False)"

definition own_keys :: "jsval \<Rightarrow> string list" where
  \<comment> \<open>\<^verbatim>\<open>Object.keys\<close> of an object or array\<close>
  "own_keys v =
     (case v of JObj ob \<Rightarrow> obj_keys ob | JArr xs \<Rightarrow> index_keys (length xs) | _ \<Rightarrow> [])"

fun ow_valid :: "ow_predicate \<Rightarrow> jsval \<Rightarrow> bool" where
  "ow_valid ow_string v = (case v of JStr _ \<Rightarrow> True | _ \<Rightarrow> False)"
| "ow_valid ow_number v = (case v of JNum _ \<Rightarrow> True | _ \<Rightarrow> False)"
| "ow_valid (ow_optional p) v = (v = JUndefined \<or> ow_valid p v)"
| "ow_valid (ow_array_ofType p) v =
     (case v of JArr xs \<Rightarrow> list_all (ow_valid p) xs | _ \<Rightarrow> False)"
| "ow_valid (ow_any ps) v = list_ex (\<lambda>p. ow_valid p v) ps"
| "ow_valid (ow_object_exactShape sh) v =
     (is_object v
      \<and> list_all (\<lambda>kp. ow_valid (snd kp) (prop_of v (fst kp))) sh
      \<and> list_all (\<lambda>k. k \<in> set (map fst sh)) (own_keys v))"

definition browserSpecificationShape :: "(string \<times> ow_predicate) list" where
  "browserSpecificationShape =
     [(''name'', ow_string),
      (''minVersion'', ow_optional ow_number),
      (''maxVersion'', ow_optional ow_number),
      (''httpVersion'', ow_optional ow_string)]"

definition headerGeneratorOptionsShape :: "(string \<times> ow_predicate) list" where
  "headerGeneratorOptionsShape =
     [(''browsers'', ow_optional (ow_array_ofType
         (ow_any [ow_object_exactShape browserSpecificationShape, ow_string]))),
      (''operatingSystems'', ow_optional (ow_array_ofType ow_string)),
      (''devices'', ow_optional (ow_array_ofType ow_string)),
      (''locales'', ow_optional (ow_array_ofType ow_string)),
      (''httpVersion'', ow_optional ow_string)]"

definition exact_error :: "(string \<times> ow_predicate) list \<Rightarrow> jsval \<Rightarrow> string option" where
  \<comment> \<open>the property \<^verbatim>\<open>exactShape\<close> reports: the first property of the shape whose value
      fails its predicate, else the first key of the object that the shape lacks\<close>
  "exact_error sh v =
     (case find (\<lambda>kp. \<not> ow_valid (snd kp) (prop_of v (fst kp))) sh of
        Some kp \<Rightarrow> Some (fst kp)
      | None \<Rightarrow>
          (case filter (\<lambda>k. k \<notin> set (map fst sh)) (own_keys v) of
             [] \<Rightarrow> None
           | k # _ \<Rightarrow> Some k))"

definition validate_options :: "jsval \<Rightarrow> error option" where
  \<comment> \<open>\<^verbatim>\<open>ow(options, 'HeaderGeneratorOptions', ow.object.exactShape(headerGeneratorOptionsShape))\<close>\<close>
  "validate_options options =
     (if \<not> is_object options then Some (ArgumentError ''HeaderGeneratorOptions'')
      else map_option ArgumentError (exact_error headerGeneratorOptionsShape options))"

definition default_arg :: "jsval \<Rightarrow> jsval" where
  \<comment> \<open>the default parameter \<^verbatim>\<open>= {}\<close>: it replaces \<^verbatim>\<open>undefined\<close> only\<close>
  "default_arg v = (if v = JUndefined then JObj [] else v)"

section \<open>The collaborators\<close>

text \<open>
  The header generator and the Bayesian network are other packages. An instance of the
  class holds one of each; here a field is what the instance's method answers to a call:
  \<open>headerGenerator\<close> is \<^verbatim>\<open>this.headerGenerator.getHeaders\<close> and
  \<open>fingerprintGeneratorNetwork\<close> is \<^verbatim>\<open>this.fingerprintGeneratorNetwork.generateSample\<close>,
  each either throwing or returning an object. \<^verbatim>\<open>JSON.parse\<close> is a parameter too.
  Every call made to a collaborator is recorded, in order.
\<close>

record generator =
  headerGenerator :: "jsval \<Rightarrow> jsval \<Rightarrow> error + obj"
  fingerprintGeneratorNetwork :: "obj \<Rightarrow> error + obj"

datatype call =
    new_HeaderGenerator jsval
  | new_BayesianNetwork
  | getHeaders jsval jsval
  | generateSample obj

record result =
  fingerprint :: js_object
  headers :: obj

section \<open>The constructor\<close>

definition FingerprintGenerator_new ::
  "(jsval \<Rightarrow> error + (jsval \<Rightarrow> jsval \<Rightarrow> error + obj)) \<Rightarrow> (error + (obj \<Rightarrow> error + obj)) \<Rightarrow>
   jsval \<Rightarrow> call list \<times> (error + generator)" where
  "FingerprintGenerator_new HeaderGenerator BayesianNetwork options0 =
     (let options = default_arg options0 in
      case validate_options options of
        Some e \<Rightarrow> ([], Inl e)
      | None \<Rightarrow>
          (case HeaderGenerator options of
             Inl e \<Rightarrow> ([new_HeaderGenerator options], Inl e)
           | Inr hg \<Rightarrow>
               ([new_HeaderGenerator options, new_BayesianNetwork],
                case BayesianNetwork of
                  Inl e \<Rightarrow> Inl e
                | Inr net \<Rightarrow>
                    Inr \<lparr>headerGenerator = hg, fingerprintGeneratorNetwork = net\<rparr>)))"

section \<open>Normalisation of the sample\<close>

fun loose_eq_missing :: "jsval \<Rightarrow> bool" where
  \<comment> \<open>\<^verbatim>\<open>v == MISSING_VALUE_DATASET_TOKEN\<close>. The loose equality compares a string as it
      is, turns an array into the join of its elements (so only a one-element array can
      give the token, which has no comma), and is false for every other value.\<close>
  "loose_eq_missing (JStr s) = (s = MISSING_VALUE_DATASET_TOKEN)"
| "loose_eq_missing (JArr [x]) = loose_eq_missing x"
| "loose_eq_missing _ = False"

definition startsWith :: "string \<Rightarrow> string \<Rightarrow> bool" where
  "startsWith s p = (take (length p) s = p)"

text \<open>Lines 82 to 88. The keys are those the object has when the loop starts; a key
  deleted before its turn is not visited. \<^verbatim>\<open>startsWith\<close> exists on strings only. Every
  attribute the loop reads, assigns or deletes is an own property of the sample, which
  has the built-in prototype throughout, so the loop is one over the own properties.\<close>

fun decode_loop :: "(string \<Rightarrow> error + jsval) \<Rightarrow> string list \<Rightarrow> obj \<Rightarrow> error + obj" where
  "decode_loop JSON_parse [] fp = Inr fp"
| "decode_loop JSON_parse (attribute # rest) fp =
     (if \<not> obj_has fp attribute then decode_loop JSON_parse rest fp
      else if loose_eq_missing (obj_get fp attribute)
        then decode_loop JSON_parse rest (obj_delete fp attribute)
      else
        (case obj_get fp attribute of
           JStr s \<Rightarrow>
             if startsWith s STRINGIFIED_PREFIX
             then (case JSON_parse (drop (length STRINGIFIED_PREFIX) s) of
                     Inl e \<Rightarrow> Inl e
                   | Inr d \<Rightarrow> decode_loop JSON_parse rest (obj_set fp attribute d))
             else decode_loop JSON_parse rest fp
         | _ \<Rightarrow> Inl TypeError))"

definition decode_pass :: "(string \<Rightarrow> error + jsval) \<Rightarrow> obj \<Rightarrow> error + obj" where
  "decode_pass JSON_parse fp = decode_loop JSON_parse (obj_keys fp) fp"

text \<open>Lines 90 to 95, and 97 to 102 with the other name. The keys are those of the nested
  value when the loop starts; each turn reads the nested value again from the
  fingerprint, which the loop itself may have overwritten.\<close>

fun hoist_loop :: "string \<Rightarrow> string list \<Rightarrow> js_object \<Rightarrow> error + js_object" where
  "hoist_loop c [] F = Inr F"
| "hoist_loop c (attribute # rest) F =
     (case get_prop (fp_get F c) attribute of
        Inl e \<Rightarrow> Inl e
      | Inr v \<Rightarrow> hoist_loop c rest (fp_set F attribute v))"

definition hoist_keys :: "string \<Rightarrow> js_object \<Rightarrow> string list" where
  "hoist_keys c F = (if fp_in F c then for_in_keys (fp_get F c) else [])"

definition hoist :: "string \<Rightarrow> js_object \<Rightarrow> error + js_object" where
  "hoist c F =
     (if fp_in F c
      then (case hoist_loop c (for_in_keys (fp_get F c)) F of
              Inl e \<Rightarrow> Inl e
            | Inr F' \<Rightarrow> Inr (fp_delete F' c))
      else Inr F)"

definition hoist_both :: "js_object \<Rightarrow> error + js_object" where
  \<comment> \<open>lines 90 to 102: \<^verbatim>\<open>pluginCharacteristics\<close> first, \<^verbatim>\<open>screenCharacteristics\<close> second\<close>
  "hoist_both F1 =
     (case hoist ''pluginCharacteristics'' F1 of
        Inl e \<Rightarrow> Inl e
      | Inr F2 \<Rightarrow> hoist ''screenCharacteristics'' F2)"

definition normalize_sample :: "(string \<Rightarrow> error + jsval) \<Rightarrow> obj \<Rightarrow> error + js_object" where
  \<comment> \<open>lines 82 to 102\<close>
  "normalize_sample JSON_parse sample =
     (case decode_pass JSON_parse sample of
        Inl e \<Rightarrow> Inl e
      | Inr fp1 \<Rightarrow> hoist_both (plain_object fp1))"

section \<open>The languages\<close>

fun split_on :: "char \<Rightarrow> string \<Rightarrow> string list" where
  \<comment> \<open>\<^verbatim>\<open>s.split(c)\<close> for a separator of one character: never an empty array\<close>
  "split_on c [] = [[]]"
| "split_on c (x # xs) =
     (if x = c then [] # split_on c xs
      else (case split_on c xs of [] \<Rightarrow> [[x]] | w # ws \<Rightarrow> (x # w) # ws))"

definition first_part :: "string \<Rightarrow> jsval" where
  \<comment> \<open>\<^verbatim>\<open>locale.split(";")[0]\<close>\<close>
  "first_part locale = (case split_on CHR '';'' locale of [] \<Rightarrow> JUndefined | w # _ \<Rightarrow> JStr w)"

definition acceptedLanguages :: "jsval \<Rightarrow> error + jsval list" where
  \<comment> \<open>lines 105 to 108; \<^verbatim>\<open>split\<close> exists on strings only\<close>
  "acceptedLanguages acceptLanguageHeaderValue =
     (case acceptLanguageHeaderValue of
        JStr s \<Rightarrow> Inr (map first_part (split_on CHR '','' s))
      | _ \<Rightarrow> Inl TypeError)"

section \<open>getFingerprint\<close>

definition userAgent_of :: "obj \<Rightarrow> jsval" where
  \<comment> \<open>line 76\<close>
  "userAgent_of hs =
     (if obj_has hs ''User-Agent'' then obj_get hs ''User-Agent'' else obj_get hs ''user-agent'')"

definition acceptLanguageHeaderValue_of :: "obj \<Rightarrow> jsval" where
  \<comment> \<open>line 104\<close>
  "acceptLanguageHeaderValue_of hs =
     (if obj_has hs ''Accept-Language'' then obj_get hs ''Accept-Language''
      else obj_get hs ''accept-language'')"

definition getFingerprint ::
  "generator \<Rightarrow> (string \<Rightarrow> error + jsval) \<Rightarrow> jsval \<Rightarrow> jsval \<Rightarrow> call list \<times> (error + result)" where
  "getFingerprint this JSON_parse options0 requestDependentHeaders0 =
     (let options = default_arg options0;
          requestDependentHeaders = default_arg requestDependentHeaders0 in
      case validate_options options of
        Some e \<Rightarrow> ([], Inl e)
      | None \<Rightarrow>
          (case headerGenerator this options requestDependentHeaders of
             Inl e \<Rightarrow> ([getHeaders options requestDependentHeaders], Inl e)
           | Inr hs \<Rightarrow>
               (let observed = [(''userAgent'', userAgent_of hs)];
                    calls = [getHeaders options requestDependentHeaders, generateSample observed]
                in
                  case fingerprintGeneratorNetwork this observed of
                    Inl e \<Rightarrow> (calls, Inl e)
                  | Inr sample \<Rightarrow>
                      (calls,
                       case normalize_sample JSON_parse sample of
                         Inl e \<Rightarrow> Inl e
                       | Inr fp \<Rightarrow>
                           (case acceptedLanguages (acceptLanguageHeaderValue_of hs) of
                              Inl e \<Rightarrow> Inl e
                            | Inr ls \<Rightarrow>
                                Inr \<lparr>fingerprint = fp_set fp ''languages'' (JArr ls),
                                     headers = hs\<rparr>)))))"

section \<open>Concrete collaborators\<close>

text \<open>A parser that knows four texts, and a generator whose header generator returns a
  given header map and whose network returns the observed variables followed by given
  attributes, as the package does. They give the theorems below concrete runs.\<close>

definition example_parse :: "string \<Rightarrow> error + jsval" where
  "example_parse s =
     (if s = ''{\"plugins\":\"*STRINGIFIED*[1,2,3]\"}''
        then Inr (JObj [(''plugins'', JStr ''*STRINGIFIED*[1,2,3]'')])
      else if s = ''[1,2,3]'' then Inr (JArr [JNum 1, JNum 2, JNum 3])
      else if s = ''{\"a\":1}'' then Inr (JObj [(''a'', JNum 1)])
      else if s = ''{\"__proto__\":{\"screenCharacteristics\":{\"a\":1}}}''
        then Inr (JObj [(''__proto__'', JObj [(''screenCharacteristics'', JObj [(''a'', JNum 1)])])])
      else Inl SyntaxError)"

definition example_generator :: "obj \<Rightarrow> obj \<Rightarrow> generator" where
  "example_generator hs sample =
     \<lparr>headerGenerator = (\<lambda>options requestDependentHeaders. Inr hs),
      fingerprintGeneratorNetwork = (\<lambda>observed. Inr (observed @ sample))\<rparr>"

section \<open>What the validation is held against\<close>

text \<open>
  The shape of the options, said without the predicates of \<^verbatim>\<open>ow\<close>: a browser
  specification is an object with a string \<^verbatim>\<open>name\<close>, numbers or nothing at
  \<^verbatim>\<open>minVersion\<close> and \<^verbatim>\<open>maxVersion\<close>, a string or nothing at \<^verbatim>\<open>httpVersion\<close>, and no
  other key; \<^verbatim>\<open>browsers\<close> is absent or an array of strings and browser specifications;
  \<^verbatim>\<open>operatingSystems\<close>, \<^verbatim>\<open>devices\<close> and \<^verbatim>\<open>locales\<close> are absent or arrays of strings;
  \<^verbatim>\<open>httpVersion\<close> is absent or a string.
\<close>

definition is_string :: "jsval \<Rightarrow> bool" where
  "is_string v = (case v of JStr _ \<Rightarrow> True | _ \<Rightarrow> False)"

definition is_number :: "jsval \<Rightarrow> bool" where
  "is_number v = (case v of JNum _ \<Rightarrow> True | _ \<Rightarrow> False)"

definition browser_specification_ok :: "jsval \<Rightarrow> bool" where
  "browser_specification_ok b =
     (is_object b
      \<and> is_string (prop_of b ''name'')
      \<and> (prop_of b ''minVersion'' = JUndefined \<or> is_number (prop_of b ''minVersion''))
      \<and> (prop_of b ''maxVersion'' = JUndefined \<or> is_number (prop_of b ''maxVersion''))
      \<and> (prop_of b ''httpVersion'' = JUndefined \<or> is_string (prop_of b ''httpVersion''))
      \<and> list_all (\<lambda>k. k \<in> {''name'', ''minVersion'', ''maxVersion'', ''httpVersion''})
           (own_keys b))"

definition field_ok :: "string \<Rightarrow> jsval \<Rightarrow> bool" where
  "field_ok f v =
     (v = JUndefined
      \<or> (if f = ''browsers''
          then (case v of
                  JArr xs \<Rightarrow> list_all (\<lambda>x. is_string x \<or> browser_specification_ok x) xs
                | _ \<Rightarrow> False)
          else if f = ''httpVersion'' then is_string v
          else (case v of JArr xs \<Rightarrow> list_all is_string xs | _ \<Rightarrow> False)))"

definition option_fields :: "string list" where
  "option_fields = [''browsers'', ''operatingSystems'', ''devices'', ''locales'', ''httpVersion'']"

text \<open>The field a failed validation is expected to name: the first of the five fields,
  in the order of the shape, whose value is not as said above; when there is none, the
  first key of the options that is none of the five.\<close>

definition first_offending :: "jsval \<Rightarrow> string option" where
  "first_offending options =
     (case filter (\<lambda>f. \<not> field_ok f (prop_of options f)) option_fields of
        f # _ \<Rightarrow> Some f
      | [] \<Rightarrow>
          (case filter (\<lambda>k. k \<notin> set option_fields) (own_keys options) of
             k # _ \<Rightarrow> Some k
           | [] \<Rightarrow> None))"

definition example_HeaderGenerator :: "jsval \<Rightarrow> error + (jsval \<Rightarrow> jsval \<Rightarrow> error + obj)" where
  "example_HeaderGenerator options = Inr (\<lambda>options requestDependentHeaders. Inr [])"

definition example_BayesianNetwork :: "error + (obj \<Rightarrow> error + obj)" where
  "example_BayesianNetwork = Inr (\<lambda>observed. Inr observed)"

section \<open>What the normalisation is held against\<close>

text \<open>What lines 83 to 87 leave of one attribute value when they do not throw: nothing
  for the missing-value token, the decoded value for a stringified one, the value itself
  for any other string.\<close>

definition decoded_attribute :: "(string \<Rightarrow> error + jsval) \<Rightarrow> jsval \<Rightarrow> jsval option" where
  "decoded_attribute JSON_parse v =
     (if loose_eq_missing v then None
      else (case v of
              JStr s \<Rightarrow>
                if startsWith s STRINGIFIED_PREFIX
                then (case JSON_parse (drop (length STRINGIFIED_PREFIX) s) of
                        Inl e \<Rightarrow> None
                      | Inr d \<Rightarrow> Some d)
                else Some v
            | _ \<Rightarrow> None))"

text \<open>The two hoisting steps in the other order, for comparison with \<open>hoist_both\<close>.\<close>

definition hoist_both_screen_first :: "js_object \<Rightarrow> error + js_object" where
  "hoist_both_screen_first F1 =
     (case hoist ''screenCharacteristics'' F1 of
        Inl e \<Rightarrow> Inl e
      | Inr F2 \<Rightarrow> hoist ''pluginCharacteristics'' F2)"

text \<open>A sentinel string is the missing-value token or a string with the stringified
  prefix. A value is hoistable without trace when none of the properties a loop over it
  visits is a sentinel string, is named after one of the two containers or is named
  \<^verbatim>\<open>__proto__\<close>.\<close>

definition sentinel :: "jsval \<Rightarrow> bool" where
  "sentinel v =
     (case v of
        JStr s \<Rightarrow> s = MISSING_VALUE_DATASET_TOKEN \<or> startsWith s STRINGIFIED_PREFIX
      | _ \<Rightarrow> False)"

definition hoistable :: "jsval \<Rightarrow> bool" where
  "hoistable v =
     list_all (\<lambda>k. k \<noteq> ''pluginCharacteristics'' \<and> k \<noteq> ''screenCharacteristics''
                  \<and> k \<noteq> ''__proto__'' \<and> \<not> sentinel (prop_of v k)) (for_in_keys v)"

section \<open>Objects\<close>

lemma map_of_obj_set: "map_of (obj_set ob k v) = (map_of ob)(k \<mapsto> v)"
  by (induction ob) (auto simp: fun_eq_iff)

lemma map_of_obj_delete: "map_of (obj_delete ob k) = (map_of ob)(k := None)"
  unfolding obj_delete_def by (induction ob) (auto simp: fun_eq_iff)

lemma obj_has_map_of: "obj_has ob k \<longleftrightarrow> map_of ob k \<noteq> None"
  unfolding obj_has_def by (simp add: map_of_eq_None_iff)

lemma obj_has_set: "obj_has (obj_set ob k v) k' \<longleftrightarrow> k' = k \<or> obj_has ob k'"
  by (simp add: obj_has_map_of map_of_obj_set)

lemma obj_has_delete: "obj_has (obj_delete ob k) k' \<longleftrightarrow> k' \<noteq> k \<and> obj_has ob k'"
  by (simp add: obj_has_map_of map_of_obj_delete)

lemma obj_get_set: "obj_get (obj_set ob k v) k' = (if k' = k then v else obj_get ob k')"
  by (simp add: obj_get_def map_of_obj_set)

lemma obj_get_delete: "obj_get (obj_delete ob k) k' = (if k' = k then JUndefined else obj_get ob k')"
  by (simp add: obj_get_def map_of_obj_delete)

lemma obj_get_Some: "map_of ob k = Some v \<Longrightarrow> obj_get ob k = v \<and> obj_has ob k"
  by (simp add: obj_get_def obj_has_map_of)

section \<open>What a returning call went through\<close>

lemma getFingerprint_returns:
  assumes "getFingerprint this P options rdh = (calls, Inr res)"
  obtains sample fp ls where
    "validate_options (default_arg options) = None"
    "headerGenerator this (default_arg options) (default_arg rdh) = Inr (headers res)"
    "fingerprintGeneratorNetwork this [(''userAgent'', userAgent_of (headers res))] = Inr sample"
    "normalize_sample P sample = Inr fp"
    "acceptedLanguages (acceptLanguageHeaderValue_of (headers res)) = Inr ls"
    "fingerprint res = fp_set fp ''languages'' (JArr ls)"
  using assms unfolding getFingerprint_def Let_def
  by (auto split: option.splits sum.splits)

section \<open>Splitting\<close>

lemma split_on_not_Nil: "split_on c s \<noteq> []"
  by (induction s) (auto split: list.splits)

lemma hd_split_on: "hd (split_on c s) = takeWhile (\<lambda>x. x \<noteq> c) s"
  by (induction s) (auto split: list.splits simp: split_on_not_Nil)

lemma first_part_takeWhile: "first_part seg = JStr (takeWhile (\<lambda>x. x \<noteq> CHR '';'') seg)"
  using hd_split_on [of "CHR '';''" seg] split_on_not_Nil [of "CHR '';''" seg]
  unfolding first_part_def by (cases "split_on CHR '';'' seg") auto

lemma length_split_on: "length (split_on c s) = Suc (count_list s c)"
  by (induction s) (auto split: list.splits simp: split_on_not_Nil)

lemma split_on_no_sep: "seg \<in> set (split_on c s) \<Longrightarrow> c \<notin> set seg"
  by (induction s arbitrary: seg) (auto split: list.splits if_splits)

lemma split_on_join: "concat (map ((#) c) (split_on c s)) = c # s"
  by (induction s) (auto split: list.splits)

section \<open>The fingerprint object and a hoisting step\<close>

lemma fp_set_ordinary:
  "k \<noteq> ''__proto__'' \<Longrightarrow> fp_set F k v = F\<lparr>props := obj_set (props F) k v\<rparr>"
  by (simp add: fp_set_def)

lemma fp_set_props_other:
  "a \<noteq> k \<Longrightarrow> map_of (props (fp_set F k v)) a = map_of (props F) a"
  by (cases v) (simp_all add: fp_set_def map_of_obj_set)

lemma fp_set_own_kept:
  "obj_has (props F) c \<Longrightarrow> obj_has (props (fp_set F k v)) c"
  by (cases v) (simp_all add: fp_set_def obj_has_set)

lemma fp_set_proto_kept:
  "k \<noteq> ''__proto__'' \<Longrightarrow> proto (fp_set F k v) = proto F"
  by (simp add: fp_set_def)

lemma fp_get_cong:
  assumes "map_of (props F) c = map_of (props F') c" and "proto F = proto F'"
  shows "fp_get F c = fp_get F' c" and "fp_in F c = fp_in F' c"
  using assms by (simp_all add: fp_get_def fp_in_def obj_has_map_of obj_get_def)

lemma hoist_keys_cong:
  assumes "map_of (props F) c = map_of (props F') c" and "proto F = proto F'"
  shows "hoist_keys c F = hoist_keys c F'"
  using fp_get_cong [OF assms] by (simp add: hoist_keys_def)

lemma fp_get_own:
  assumes "obj_has (props F) c" and "map_of (props F') c = map_of (props F) c"
  shows "fp_get F' c = fp_get F c"
  using assms by (simp add: fp_get_def obj_has_map_of obj_get_def)

lemma fp_get_fp_set:
  assumes "k \<noteq> c" and "obj_has (props F) c \<or> k \<noteq> ''__proto__''"
  shows "fp_get (fp_set F k v) c = fp_get F c"
proof (cases "obj_has (props F) c")
  case True
  from fp_get_own [OF True fp_set_props_other] assms(1) show ?thesis by metis
next
  case False
  with assms(2) have k: "k \<noteq> ''__proto__''" by simp
  from assms(1) show ?thesis
    by (intro fp_get_cong(1)) (simp_all add: fp_set_ordinary [OF k] map_of_obj_set)
qed

lemma plain_object_simps:
  "props (plain_object ob) = ob" "proto (plain_object ob) = Object_prototype"
  "fp_in (plain_object ob) k = obj_has ob k" "fp_get (plain_object ob) k = obj_get ob k"
  by (simp_all add: plain_object_def fp_in_def fp_get_def obj_get_def obj_has_map_of
      split: option.splits)

lemma hoist_loop_other:
  assumes "hoist_loop c ks F = Inr F'" and "a \<notin> set ks"
  shows "map_of (props F') a = map_of (props F) a"
  using assms
  by (induction ks arbitrary: F) (auto split: sum.splits simp: fp_set_props_other)

lemma hoist_loop_proto:
  assumes "hoist_loop c ks F = Inr F'" and "''__proto__'' \<notin> set ks"
  shows "proto F' = proto F"
  using assms
  by (induction ks arbitrary: F) (auto split: sum.splits simp: fp_set_proto_kept)

lemma hoist_other:
  assumes "hoist c F = Inr F'" and "a \<notin> set (hoist_keys c F)" and "a \<noteq> c"
  shows "map_of (props F') a = map_of (props F) a"
  using assms hoist_loop_other [of c "for_in_keys (fp_get F c)" F _ a]
  by (auto simp: hoist_def hoist_keys_def fp_delete_def map_of_obj_delete split: if_splits sum.splits)

lemma hoist_proto:
  assumes "hoist c F = Inr F'" and "''__proto__'' \<notin> set (hoist_keys c F)"
  shows "proto F' = proto F"
  using assms hoist_loop_proto [of c "for_in_keys (fp_get F c)" F]
  by (auto simp: hoist_def hoist_keys_def fp_delete_def split: if_splits sum.splits)

lemma hoist_removes:
  assumes "hoist c F = Inr F'"
  shows "\<not> obj_has (props F') c"
  using assms
  by (auto simp: hoist_def fp_delete_def fp_in_def obj_has_delete split: if_splits sum.splits)

lemma hoist_loop_fixed:
  assumes "c \<notin> set ks"
    and "obj_has (props F) c \<or> ''__proto__'' \<notin> set ks"
    and "ks = [] \<or> (fp_get F c \<noteq> JUndefined \<and> fp_get F c \<noteq> JNull)"
  shows "\<exists>F'. hoist_loop c ks F = Inr F'
           \<and> (\<forall>a. a \<noteq> ''__proto__'' \<longrightarrow>
                 map_of (props F') a
                   = (if a \<in> set ks then Some (prop_of (fp_get F c) a) else map_of (props F) a))"
  using assms
proof (induction ks arbitrary: F)
  case Nil
  then show ?case by simp
next
  case (Cons k ks)
  let ?n = "fp_get F c"
  let ?F = "fp_set F k (prop_of ?n k)"
  from Cons.prems have n: "?n \<noteq> JUndefined" "?n \<noteq> JNull" and kc: "k \<noteq> c" "c \<notin> set ks"
    and own: "obj_has (props F) c \<or> (k \<noteq> ''__proto__'' \<and> ''__proto__'' \<notin> set ks)"
    by auto
  from own have same: "fp_get ?F c = ?n"
    using fp_get_fp_set [OF kc(1), of F] by blast
  from own have own': "obj_has (props ?F) c \<or> ''__proto__'' \<notin> set ks"
    using fp_set_own_kept by blast
  from n have g: "get_prop ?n k = Inr (prop_of ?n k)"
    by (cases ?n) (simp_all add: get_prop_def)
  from Cons.IH [OF kc(2) own'] n same obtain F' where
    r: "hoist_loop c ks ?F = Inr F'"
    and m: "\<forall>a. a \<noteq> ''__proto__'' \<longrightarrow>
              map_of (props F') a
                = (if a \<in> set ks then Some (prop_of ?n a) else map_of (props ?F) a)"
    by auto
  have "map_of (props ?F) a = (if a = k then Some (prop_of ?n k) else map_of (props F) a)"
    if "a \<noteq> ''__proto__''" for a
  proof (cases "a = k")
    case True
    with that show ?thesis
      by (simp add: fp_set_ordinary map_of_obj_set)
  next
    case False
    then show ?thesis
      by (simp add: fp_set_props_other)
  qed
  with m g r show ?case
    by auto
qed

lemma for_in_keys_nullish: "v = JUndefined \<or> v = JNull \<Longrightarrow> for_in_keys v = []"
  by (auto simp: for_in_keys_def)

lemma hoist_fixed:
  assumes "c \<notin> set (hoist_keys c F)"
    and "obj_has (props F) c \<or> ''__proto__'' \<notin> set (hoist_keys c F)"
    and "c \<noteq> ''__proto__''"
  shows "\<exists>F'. hoist c F = Inr F'
           \<and> (\<forall>a. a \<noteq> ''__proto__'' \<longrightarrow>
                 map_of (props F') a =
                   (if a = c then None
                    else if a \<in> set (hoist_keys c F) then Some (prop_of (fp_get F c) a)
                    else map_of (props F) a))"
proof (cases "fp_in F c")
  case False
  then have "\<not> obj_has (props F) c"
    by (simp add: fp_in_def)
  with False show ?thesis
    by (auto simp: hoist_def hoist_keys_def obj_has_map_of)
next
  case True
  with assms have c: "c \<notin> set (for_in_keys (fp_get F c))"
    and o: "obj_has (props F) c \<or> ''__proto__'' \<notin> set (for_in_keys (fp_get F c))"
    by (simp_all add: hoist_keys_def)
  have "for_in_keys (fp_get F c) = [] \<or> (fp_get F c \<noteq> JUndefined \<and> fp_get F c \<noteq> JNull)"
    using for_in_keys_nullish [of "fp_get F c"] by blast
  from hoist_loop_fixed [OF c o this] True show ?thesis
    by (auto simp: hoist_def hoist_keys_def fp_delete_def map_of_obj_delete)
qed

section \<open>The languages of the worked example\<close>

lemma fp_set_languages:
  "props (fp_set F ''languages'' v) = obj_set (props F) ''languages'' v"
  "proto (fp_set F ''languages'' v) = proto F"
  by (simp_all add: fp_set_ordinary)

text \<open>
  C5. Whenever \<open>getFingerprint\<close> returns a result whose header map has the entry
  \<^verbatim>\<open>Accept-Language\<close> with value \<^verbatim>\<open>en-US,en;q=0.9,fr;q=0.8\<close>, the \<^verbatim>\<open>languages\<close> of the
  returned fingerprint are \<^verbatim>\<open>en-US\<close>, \<^verbatim>\<open>en\<close>, \<^verbatim>\<open>fr\<close>, in that order.
\<close>

theorem getFingerprint_languages_example:
  assumes "getFingerprint this JSON_parse options requestDependentHeaders = (calls, Inr res)"
    and "map_of (headers res) ''Accept-Language'' = Some (JStr ''en-US,en;q=0.9,fr;q=0.8'')"
  shows "map_of (props (fingerprint res)) ''languages''
           = Some (JArr [JStr ''en-US'', JStr ''en'', JStr ''fr''])"
proof -
  from assms(1) obtain fp ls where
    ls: "acceptedLanguages (acceptLanguageHeaderValue_of (headers res)) = Inr ls"
    and fp: "fingerprint res = fp_set fp ''languages'' (JArr ls)"
    by (rule getFingerprint_returns)
  from assms(2) have "acceptLanguageHeaderValue_of (headers res) = JStr ''en-US,en;q=0.9,fr;q=0.8''"
    by (simp add: acceptLanguageHeaderValue_of_def obj_get_Some)
  with ls have "ls = [JStr ''en-US'', JStr ''en'', JStr ''fr'']"
    by (simp add: acceptedLanguages_def first_part_def)
  with fp show ?thesis
    by (simp add: fp_set_languages map_of_obj_set)
qed

theorem getFingerprint_languages_example_witness:
  "getFingerprint
     (example_generator [(''User-Agent'', JStr ''UA''), (''Accept-Language'', JStr ''en-US,en;q=0.9,fr;q=0.8'')] [])
     example_parse JUndefined JUndefined
   = ([getHeaders (JObj []) (JObj []), generateSample [(''userAgent'', JStr ''UA'')]],
      Inr \<lparr>fingerprint =
             \<lparr>props = [(''userAgent'', JStr ''UA''),
                       (''languages'', JArr [JStr ''en-US'', JStr ''en'', JStr ''fr''])],
              proto = Object_prototype\<rparr>,
           headers = [(''User-Agent'', JStr ''UA''),
                      (''Accept-Language'', JStr ''en-US,en;q=0.9,fr;q=0.8'')]\<rparr>)
   \<and> map_of [(''userAgent'', JStr ''UA''),
             (''languages'', JArr [JStr ''en-US'', JStr ''en'', JStr ''fr''])] ''languages''
       = Some (JArr [JStr ''en-US'', JStr ''en'', JStr ''fr''])"
proof -
  let ?hs = "[(''User-Agent'', JStr ''UA''), (''Accept-Language'', JStr ''en-US,en;q=0.9,fr;q=0.8'')]"
  have run: "getFingerprint (example_generator ?hs []) example_parse JUndefined JUndefined
   = ([getHeaders (JObj []) (JObj []), generateSample [(''userAgent'', JStr ''UA'')]],
      Inr \<lparr>fingerprint =
             \<lparr>props = [(''userAgent'', JStr ''UA''),
                       (''languages'', JArr [JStr ''en-US'', JStr ''en'', JStr ''fr''])],
              proto = Object_prototype\<rparr>,
           headers = ?hs\<rparr>)"
    by code_simp
  from getFingerprint_languages_example [OF run] show ?thesis
    using run by simp
qed

section \<open>The languages follow the header\<close>

lemma acceptedLanguages_JStr:
  "acceptedLanguages (JStr h) = Inr (map (\<lambda>seg. JStr (takeWhile (\<lambda>x. x \<noteq> CHR '';'') seg)) (split_on CHR '','' h))"
  by (simp add: acceptedLanguages_def first_part_takeWhile)

lemma acceptedLanguages_Inr:
  assumes "acceptedLanguages v = Inr ls"
  obtains h where "v = JStr h"
    and "ls = map (\<lambda>seg. JStr (takeWhile (\<lambda>x. x \<noteq> CHR '';'') seg)) (split_on CHR '','' h)"
  using assms by (cases v) (auto simp: acceptedLanguages_def first_part_takeWhile)

text \<open>
  C8. Whenever \<open>getFingerprint\<close> returns and the header map the header generator gave
  holds the string \<open>h\<close> under \<^verbatim>\<open>Accept-Language\<close>, or has no such key and holds \<open>h\<close> under
  \<^verbatim>\<open>accept-language\<close>, the \<^verbatim>\<open>languages\<close> are, in order, the comma-separated segments of
  \<open>h\<close>, each cut before its first semicolon: one language per segment, repeated where the
  segments repeat. The segments are those of \<open>h\<close>: joined by commas they give \<open>h\<close> back,
  and none contains a comma. There is one more segment than there are commas, so the
  sequence is never empty.
\<close>

theorem getFingerprint_languages_follow_header:
  assumes "getFingerprint this JSON_parse options requestDependentHeaders = (calls, Inr res)"
    and "map_of (headers res) ''Accept-Language'' = Some (JStr h)
         \<or> (map_of (headers res) ''Accept-Language'' = None
            \<and> map_of (headers res) ''accept-language'' = Some (JStr h))"
  shows "headerGenerator this (default_arg options) (default_arg requestDependentHeaders)
           = Inr (headers res)
         \<and> map_of (props (fingerprint res)) ''languages''
           = Some (JArr (map (\<lambda>seg. JStr (takeWhile (\<lambda>x. x \<noteq> CHR '';'') seg)) (split_on CHR '','' h)))
         \<and> concat (map ((#) CHR '','') (split_on CHR '','' h)) = CHR '','' # h
         \<and> (\<forall>seg \<in> set (split_on CHR '','' h). CHR '','' \<notin> set seg)
         \<and> length (split_on CHR '','' h) = Suc (count_list h CHR '','')"
proof -
  from assms(1) obtain fp ls where
    hg: "headerGenerator this (default_arg options) (default_arg requestDependentHeaders)
           = Inr (headers res)"
    and ls: "acceptedLanguages (acceptLanguageHeaderValue_of (headers res)) = Inr ls"
    and fp: "fingerprint res = fp_set fp ''languages'' (JArr ls)"
    by (rule getFingerprint_returns)
  from assms(2) have "acceptLanguageHeaderValue_of (headers res) = JStr h"
    by (auto simp: acceptLanguageHeaderValue_of_def obj_get_def obj_has_map_of)
  with ls have "ls = map (\<lambda>seg. JStr (takeWhile (\<lambda>x. x \<noteq> CHR '';'') seg)) (split_on CHR '','' h)"
    by (simp add: acceptedLanguages_JStr)
  with fp have "map_of (props (fingerprint res)) ''languages''
           = Some (JArr (map (\<lambda>seg. JStr (takeWhile (\<lambda>x. x \<noteq> CHR '';'') seg)) (split_on CHR '','' h)))"
    by (simp add: fp_set_languages map_of_obj_set)
  with hg show ?thesis
    by (simp add: split_on_join split_on_no_sep length_split_on)
qed

theorem getFingerprint_languages_follow_header_witness:
  "getFingerprint
     (example_generator [(''user-agent'', JStr ''UA''), (''accept-language'', JStr ''de;q=1,en,de;q=0.5,'')] [])
     example_parse JUndefined JUndefined
   = ([getHeaders (JObj []) (JObj []), generateSample [(''userAgent'', JStr ''UA'')]],
      Inr \<lparr>fingerprint =
             \<lparr>props = [(''userAgent'', JStr ''UA''),
                       (''languages'', JArr [JStr ''de'', JStr ''en'', JStr ''de'', JStr ''''])],
              proto = Object_prototype\<rparr>,
           headers = [(''user-agent'', JStr ''UA''), (''accept-language'', JStr ''de;q=1,en,de;q=0.5,'')]\<rparr>)
   \<and> map_of [(''userAgent'', JStr ''UA''),
             (''languages'', JArr [JStr ''de'', JStr ''en'', JStr ''de'', JStr ''''])] ''languages''
       = Some (JArr (map (\<lambda>seg. JStr (takeWhile (\<lambda>x. x \<noteq> CHR '';'') seg))
                      (split_on CHR '','' ''de;q=1,en,de;q=0.5,'')))
   \<and> length (split_on CHR '','' ''de;q=1,en,de;q=0.5,'') = 4"
proof -
  let ?hs = "[(''user-agent'', JStr ''UA''), (''accept-language'', JStr ''de;q=1,en,de;q=0.5,'')]"
  let ?res = "\<lparr>fingerprint =
             \<lparr>props = [(''userAgent'', JStr ''UA''),
                       (''languages'', JArr [JStr ''de'', JStr ''en'', JStr ''de'', JStr ''''])],
              proto = Object_prototype\<rparr>,
           headers = ?hs\<rparr>"
  have run: "getFingerprint (example_generator ?hs []) example_parse JUndefined JUndefined
   = ([getHeaders (JObj []) (JObj []), generateSample [(''userAgent'', JStr ''UA'')]], Inr ?res)"
    by code_simp
  have hv: "map_of (headers ?res) ''Accept-Language'' = Some (JStr ''de;q=1,en,de;q=0.5,'')
         \<or> (map_of (headers ?res) ''Accept-Language'' = None
            \<and> map_of (headers ?res) ''accept-language'' = Some (JStr ''de;q=1,en,de;q=0.5,''))"
    by simp
  from getFingerprint_languages_follow_header [OF run hv] show ?thesis
    using run by simp
qed

section \<open>Canonical header names come first\<close>

text \<open>
  C10. Each header is read under its canonical name first. When the header map has a key
  \<^verbatim>\<open>User-Agent\<close>, whatever it has under \<^verbatim>\<open>user-agent\<close> or any other key, the network is
  asked for a sample with \<^verbatim>\<open>userAgent\<close> observed at the value of \<^verbatim>\<open>User-Agent\<close>. When it
  has a key \<^verbatim>\<open>Accept-Language\<close>, whatever it has under \<^verbatim>\<open>accept-language\<close> or any other
  key, a call that returns had a string there, and the \<^verbatim>\<open>languages\<close> are the segments of
  that string.
\<close>

theorem getFingerprint_canonical_header_first:
  assumes "validate_options (default_arg options) = None"
    and "headerGenerator this (default_arg options) (default_arg requestDependentHeaders) = Inr hs"
  shows "(\<forall>u. map_of hs ''User-Agent'' = Some u \<longrightarrow>
            fst (getFingerprint this JSON_parse options requestDependentHeaders)
              = [getHeaders (default_arg options) (default_arg requestDependentHeaders),
                 generateSample [(''userAgent'', u)]])
         \<and> (\<forall>v res. map_of hs ''Accept-Language'' = Some v
                \<and> snd (getFingerprint this JSON_parse options requestDependentHeaders) = Inr res \<longrightarrow>
               (\<exists>h. v = JStr h
                    \<and> map_of (props (fingerprint res)) ''languages''
                        = Some (JArr (map (\<lambda>seg. JStr (takeWhile (\<lambda>x. x \<noteq> CHR '';'') seg))
                                       (split_on CHR '','' h)))))"
proof (intro conjI allI impI)
  fix u
  assume "map_of hs ''User-Agent'' = Some u"
  then have "userAgent_of hs = u"
    by (simp add: userAgent_of_def obj_get_Some)
  with assms show "fst (getFingerprint this JSON_parse options requestDependentHeaders)
              = [getHeaders (default_arg options) (default_arg requestDependentHeaders),
                 generateSample [(''userAgent'', u)]]"
    unfolding getFingerprint_def Let_def by (simp split: sum.splits)
next
  fix v res
  assume a: "map_of hs ''Accept-Language'' = Some v
             \<and> snd (getFingerprint this JSON_parse options requestDependentHeaders) = Inr res"
  then have v: "acceptLanguageHeaderValue_of hs = v"
    by (simp add: acceptLanguageHeaderValue_of_def obj_get_Some)
  obtain calls where "getFingerprint this JSON_parse options requestDependentHeaders = (calls, Inr res)"
    using a by (cases "getFingerprint this JSON_parse options requestDependentHeaders") simp
  then obtain fp ls where
    hg: "headerGenerator this (default_arg options) (default_arg requestDependentHeaders)
           = Inr (headers res)"
    and ls: "acceptedLanguages (acceptLanguageHeaderValue_of (headers res)) = Inr ls"
    and fp: "fingerprint res = fp_set fp ''languages'' (JArr ls)"
    by (rule getFingerprint_returns)
  from hg assms(2) have "headers res = hs" by simp
  with ls v have "acceptedLanguages v = Inr ls" by simp
  then obtain h where "v = JStr h"
    and "ls = map (\<lambda>seg. JStr (takeWhile (\<lambda>x. x \<noteq> CHR '';'') seg)) (split_on CHR '','' h)"
    by (rule acceptedLanguages_Inr)
  with fp show "\<exists>h. v = JStr h
                    \<and> map_of (props (fingerprint res)) ''languages''
                        = Some (JArr (map (\<lambda>seg. JStr (takeWhile (\<lambda>x. x \<noteq> CHR '';'') seg))
                                       (split_on CHR '','' h)))"
    by (simp add: fp_set_languages map_of_obj_set)
qed

theorem getFingerprint_canonical_header_first_witness:
  "getFingerprint
     (example_generator [(''user-agent'', JStr ''lower''), (''User-Agent'', JStr ''Canonical''),
                         (''accept-language'', JStr ''de''), (''Accept-Language'', JStr ''en-US,en;q=0.9'')] [])
     example_parse JUndefined JUndefined
   = ([getHeaders (JObj []) (JObj []), generateSample [(''userAgent'', JStr ''Canonical'')]],
      Inr \<lparr>fingerprint =
             \<lparr>props = [(''userAgent'', JStr ''Canonical''),
                       (''languages'', JArr [JStr ''en-US'', JStr ''en''])],
              proto = Object_prototype\<rparr>,
           headers = [(''user-agent'', JStr ''lower''), (''User-Agent'', JStr ''Canonical''),
                      (''accept-language'', JStr ''de''), (''Accept-Language'', JStr ''en-US,en;q=0.9'')]\<rparr>)
   \<and> fst (getFingerprint
     (example_generator [(''user-agent'', JStr ''lower''), (''User-Agent'', JStr ''Canonical'')] [])
     example_parse JUndefined JUndefined)
     = [getHeaders (JObj []) (JObj []), generateSample [(''userAgent'', JStr ''Canonical'')]]
   \<and> (\<exists>h. JStr ''en-US,en;q=0.9'' = JStr h
          \<and> map_of [(''userAgent'', JStr ''Canonical''),
                    (''languages'', JArr [JStr ''en-US'', JStr ''en''])] ''languages''
              = Some (JArr (map (\<lambda>seg. JStr (takeWhile (\<lambda>x. x \<noteq> CHR '';'') seg))
                             (split_on CHR '','' h))))"
proof -
  let ?hs = "[(''user-agent'', JStr ''lower''), (''User-Agent'', JStr ''Canonical''),
              (''accept-language'', JStr ''de''), (''Accept-Language'', JStr ''en-US,en;q=0.9'')]"
  let ?hs2 = "[(''user-agent'', JStr ''lower''), (''User-Agent'', JStr ''Canonical'')]"
  let ?res = "\<lparr>fingerprint =
             \<lparr>props = [(''userAgent'', JStr ''Canonical''),
                       (''languages'', JArr [JStr ''en-US'', JStr ''en''])],
              proto = Object_prototype\<rparr>,
           headers = ?hs\<rparr>"
  have v: "validate_options (default_arg JUndefined) = None" by code_simp
  have h: "headerGenerator (example_generator ?hs []) (default_arg JUndefined) (default_arg JUndefined) = Inr ?hs"
    and h2: "headerGenerator (example_generator ?hs2 []) (default_arg JUndefined) (default_arg JUndefined) = Inr ?hs2"
    by (simp_all add: example_generator_def)
  have run: "getFingerprint (example_generator ?hs []) example_parse JUndefined JUndefined
   = ([getHeaders (JObj []) (JObj []), generateSample [(''userAgent'', JStr ''Canonical'')]], Inr ?res)"
    by code_simp
  have d: "default_arg JUndefined = JObj []"
    by (simp add: default_arg_def)
  have m: "map_of ?hs ''Accept-Language'' = Some (JStr ''en-US,en;q=0.9'')"
    "map_of ?hs2 ''User-Agent'' = Some (JStr ''Canonical'')"
    by simp_all
  note a = getFingerprint_canonical_header_first [OF v h, of example_parse]
  note b = getFingerprint_canonical_header_first [OF v h2, of example_parse]
  have s: "snd (getFingerprint (example_generator ?hs []) example_parse JUndefined JUndefined) = Inr ?res"
    using run by simp
  note 1 = a [THEN conjunct2, rule_format, OF conjI [OF m(1) s]]
  note 2 = b [THEN conjunct1, rule_format, OF m(2), unfolded d]
  from 1 2 run show ?thesis
    by simp
qed

section \<open>A header map without User-Agent\<close>

lemma decode_loop_undefined_fails:
  assumes "a \<in> set ks" and "obj_has fp a" and "obj_get fp a = JUndefined"
  shows "\<exists>e. decode_loop JSON_parse ks fp = Inl e \<and> (e = TypeError \<or> (\<exists>s. JSON_parse s = Inl e))"
  using assms
proof (induction ks arbitrary: fp)
  case Nil
  then show ?case by simp
next
  case (Cons k ks)
  let ?goal = "\<lambda>r. \<exists>e. r = Inl e \<and> (e = TypeError \<or> (\<exists>s. JSON_parse s = Inl e))"
  show ?case
  proof (cases "k = a")
    case True
    with Cons.prems show ?thesis by simp
  next
    case False
    with Cons.prems have a: "a \<in> set ks" by simp
    have keep: "?goal (decode_loop JSON_parse ks fp')"
      if "obj_has fp' a" and "obj_get fp' a = JUndefined" for fp'
      using Cons.IH [OF a that] .
    from False Cons.prems have
      1: "?goal (decode_loop JSON_parse ks fp)"
      and 2: "?goal (decode_loop JSON_parse ks (obj_delete fp k))"
      and 3: "\<And>d. ?goal (decode_loop JSON_parse ks (obj_set fp k d))"
      by (auto intro!: keep simp: obj_has_delete obj_get_delete obj_has_set obj_get_set)
    show ?thesis
    proof (cases "\<not> obj_has fp k \<or> loose_eq_missing (obj_get fp k)")
      case True
      with 1 2 show ?thesis by auto
    next
      case nd: False
      show ?thesis
      proof (cases "obj_get fp k")
        case (JStr s)
        show ?thesis
        proof (cases "startsWith s STRINGIFIED_PREFIX")
          case True
          show ?thesis
          proof (cases "JSON_parse (drop (length STRINGIFIED_PREFIX) s)")
            case (Inl e)
            with nd JStr True show ?thesis by auto
          next
            case (Inr d)
            with nd JStr True 3 [of d] show ?thesis by auto
          qed
        next
          case False
          with nd JStr 1 show ?thesis by auto
        qed
      qed (use nd in auto)
    qed
  qed
qed

lemma decode_pass_undefined_fails:
  assumes "obj_has sample a" and "obj_get sample a = JUndefined"
  shows "\<exists>e. decode_pass JSON_parse sample = Inl e \<and> (e = TypeError \<or> (\<exists>s. JSON_parse s = Inl e))"
  unfolding decode_pass_def
  using assms by (intro decode_loop_undefined_fails [of a]) (auto simp: obj_keys_def obj_has_def)

text \<open>
  C1, as stated, fails: with a header map that has neither \<^verbatim>\<open>User-Agent\<close> nor
  \<^verbatim>\<open>user-agent\<close> the network is asked for a sample all the same, with \<^verbatim>\<open>userAgent\<close>
  observed at \<^verbatim>\<open>undefined\<close>. With a network that returns the observed variable among the
  attributes, the call then ends in the \<^verbatim>\<open>TypeError\<close> of line 85.
\<close>

theorem getFingerprint_missing_user_agent_counterexample:
  "\<not> obj_has [(''Accept-Language'', JStr ''en'')] ''User-Agent''
   \<and> \<not> obj_has [(''Accept-Language'', JStr ''en'')] ''user-agent''
   \<and> getFingerprint (example_generator [(''Accept-Language'', JStr ''en'')] [])
        example_parse JUndefined JUndefined
      = ([getHeaders (JObj []) (JObj []), generateSample [(''userAgent'', JUndefined)]],
         Inl TypeError)"
  by code_simp

text \<open>
  C1, amended. When the options pass validation and the header map has neither
  \<^verbatim>\<open>User-Agent\<close> nor \<^verbatim>\<open>user-agent\<close>, \<open>getFingerprint\<close> calls the header generator and
  then the network, once, with \<^verbatim>\<open>userAgent\<close> observed at \<^verbatim>\<open>undefined\<close>. What the network
  throws is what the call throws; and when the network returns a sample that holds
  \<^verbatim>\<open>userAgent\<close> at \<^verbatim>\<open>undefined\<close>, the call fails, with a \<^verbatim>\<open>TypeError\<close> or with an error
  that \<^verbatim>\<open>JSON.parse\<close> returned for some text.
\<close>

theorem getFingerprint_missing_user_agent:
  assumes "validate_options (default_arg options) = None"
    and "headerGenerator this (default_arg options) (default_arg requestDependentHeaders) = Inr hs"
    and "\<not> obj_has hs ''User-Agent''" and "\<not> obj_has hs ''user-agent''"
  shows "fst (getFingerprint this JSON_parse options requestDependentHeaders)
           = [getHeaders (default_arg options) (default_arg requestDependentHeaders),
              generateSample [(''userAgent'', JUndefined)]]
         \<and> (\<forall>e. fingerprintGeneratorNetwork this [(''userAgent'', JUndefined)] = Inl e \<longrightarrow>
               snd (getFingerprint this JSON_parse options requestDependentHeaders) = Inl e)
         \<and> (\<forall>sample. fingerprintGeneratorNetwork this [(''userAgent'', JUndefined)] = Inr sample
                \<and> obj_has sample ''userAgent'' \<and> obj_get sample ''userAgent'' = JUndefined \<longrightarrow>
               (\<exists>e. snd (getFingerprint this JSON_parse options requestDependentHeaders) = Inl e
                    \<and> (e = TypeError \<or> (\<exists>s. JSON_parse s = Inl e))))"
proof -
  from assms(3,4) have ua: "userAgent_of hs = JUndefined"
    by (simp add: userAgent_of_def obj_get_def obj_has_map_of)
  have norm: "\<exists>e. normalize_sample JSON_parse sample = Inl e
                 \<and> (e = TypeError \<or> (\<exists>s. JSON_parse s = Inl e))"
    if "obj_has sample ''userAgent''" and "obj_get sample ''userAgent'' = JUndefined" for sample
    using decode_pass_undefined_fails [OF that, of JSON_parse]
    by (auto simp: normalize_sample_def)
  have "\<exists>e. snd (getFingerprint this JSON_parse options requestDependentHeaders) = Inl e
            \<and> (e = TypeError \<or> (\<exists>s. JSON_parse s = Inl e))"
    if s: "fingerprintGeneratorNetwork this [(''userAgent'', JUndefined)] = Inr sample"
      and u: "obj_has sample ''userAgent''" "obj_get sample ''userAgent'' = JUndefined" for sample
  proof -
    from norm [OF u] obtain e where
      e: "normalize_sample JSON_parse sample = Inl e" "e = TypeError \<or> (\<exists>s. JSON_parse s = Inl e)"
      by blast
    from assms(1,2) ua s e(1)
    have "snd (getFingerprint this JSON_parse options requestDependentHeaders) = Inl e"
      unfolding getFingerprint_def Let_def by simp
    with e(2) show ?thesis by blast
  qed
  moreover from assms(1,2) ua
  have "fst (getFingerprint this JSON_parse options requestDependentHeaders)
           = [getHeaders (default_arg options) (default_arg requestDependentHeaders),
              generateSample [(''userAgent'', JUndefined)]]"
    and "\<forall>e. fingerprintGeneratorNetwork this [(''userAgent'', JUndefined)] = Inl e \<longrightarrow>
               snd (getFingerprint this JSON_parse options requestDependentHeaders) = Inl e"
    unfolding getFingerprint_def Let_def by (auto split: sum.splits)
  ultimately show ?thesis by blast
qed

theorem getFingerprint_missing_user_agent_witness:
  "fst (getFingerprint (example_generator [(''Accept-Language'', JStr ''en'')] [])
          example_parse JUndefined JUndefined)
     = [getHeaders (JObj []) (JObj []), generateSample [(''userAgent'', JUndefined)]]
   \<and> (\<exists>e. snd (getFingerprint (example_generator [(''Accept-Language'', JStr ''en'')] [])
          example_parse JUndefined JUndefined) = Inl e
        \<and> (e = TypeError \<or> (\<exists>s. example_parse s = Inl e)))"
proof -
  let ?hs = "[(''Accept-Language'', JStr ''en'')]"
  let ?g = "example_generator ?hs []"
  have v: "validate_options (default_arg JUndefined) = None" by code_simp
  have h: "headerGenerator ?g (default_arg JUndefined) (default_arg JUndefined) = Inr ?hs"
    by (simp add: example_generator_def)
  have k: "\<not> obj_has ?hs ''User-Agent''" "\<not> obj_has ?hs ''user-agent''"
    by (simp_all add: obj_has_def)
  have s: "fingerprintGeneratorNetwork ?g [(''userAgent'', JUndefined)] = Inr [(''userAgent'', JUndefined)]
           \<and> obj_has [(''userAgent'', JUndefined)] ''userAgent''
           \<and> obj_get [(''userAgent'', JUndefined)] ''userAgent'' = JUndefined"
    by (simp add: example_generator_def obj_has_def obj_get_def)
  have d: "default_arg JUndefined = JObj []"
    by (simp add: default_arg_def)
  note t = getFingerprint_missing_user_agent [OF v h k, of example_parse, unfolded d]
  note 1 = t [THEN conjunct1]
  note 2 = t [THEN conjunct2, THEN conjunct2, rule_format, OF s]
  from 1 2 show ?thesis by (rule conjI)
qed

section \<open>A header map without Accept-Language\<close>

text \<open>
  C4, as stated, fails: with \<^verbatim>\<open>User-Agent\<close> present and no \<^verbatim>\<open>Accept-Language\<close> under
  either name, line 106 calls \<^verbatim>\<open>split\<close> on \<^verbatim>\<open>undefined\<close> and the call throws.
\<close>

theorem getFingerprint_missing_accept_language_counterexample:
  "obj_has [(''User-Agent'', JStr ''UA'')] ''User-Agent''
   \<and> \<not> obj_has [(''User-Agent'', JStr ''UA'')] ''Accept-Language''
   \<and> \<not> obj_has [(''User-Agent'', JStr ''UA'')] ''accept-language''
   \<and> getFingerprint (example_generator [(''User-Agent'', JStr ''UA'')] [])
        example_parse JUndefined JUndefined
      = ([getHeaders (JObj []) (JObj []), generateSample [(''userAgent'', JStr ''UA'')]],
         Inl TypeError)"
  by code_simp

text \<open>
  C4, amended. When the header map has neither \<^verbatim>\<open>Accept-Language\<close> nor
  \<^verbatim>\<open>accept-language\<close>, \<open>getFingerprint\<close> returns no result: it fails, and with a
  \<^verbatim>\<open>TypeError\<close> when validation, sampling and normalisation have all succeeded.
\<close>

theorem getFingerprint_missing_accept_language:
  assumes "headerGenerator this (default_arg options) (default_arg requestDependentHeaders) = Inr hs"
    and "\<not> obj_has hs ''Accept-Language''" and "\<not> obj_has hs ''accept-language''"
  shows "(\<exists>e. snd (getFingerprint this JSON_parse options requestDependentHeaders) = Inl e)
         \<and> (\<forall>sample fp.
               validate_options (default_arg options) = None
               \<and> fingerprintGeneratorNetwork this [(''userAgent'', userAgent_of hs)] = Inr sample
               \<and> normalize_sample JSON_parse sample = Inr fp \<longrightarrow>
               snd (getFingerprint this JSON_parse options requestDependentHeaders) = Inl TypeError)"
proof -
  from assms(2,3) have "acceptLanguageHeaderValue_of hs = JUndefined"
    by (simp add: acceptLanguageHeaderValue_of_def obj_get_def obj_has_map_of)
  then have "acceptedLanguages (acceptLanguageHeaderValue_of hs) = Inl TypeError"
    by (simp add: acceptedLanguages_def)
  with assms(1) show ?thesis
    unfolding getFingerprint_def Let_def
    by (auto split: sum.splits option.splits)
qed

theorem getFingerprint_missing_accept_language_witness:
  "snd (getFingerprint (example_generator [(''User-Agent'', JStr ''UA'')] [])
          example_parse JUndefined JUndefined) = Inl TypeError"
proof -
  let ?hs = "[(''User-Agent'', JStr ''UA'')]"
  let ?g = "example_generator ?hs []"
  have v: "validate_options (default_arg JUndefined) = None" by code_simp
  have h: "headerGenerator ?g (default_arg JUndefined) (default_arg JUndefined) = Inr ?hs"
    by (simp add: example_generator_def)
  have k: "\<not> obj_has ?hs ''Accept-Language''" "\<not> obj_has ?hs ''accept-language''"
    by (simp_all add: obj_has_def)
  have s: "fingerprintGeneratorNetwork ?g [(''userAgent'', userAgent_of ?hs)] = Inr [(''userAgent'', JStr ''UA'')]"
    by (simp add: example_generator_def userAgent_of_def obj_has_def obj_get_def)
  have n: "normalize_sample example_parse [(''userAgent'', JStr ''UA'')]
             = Inr (plain_object [(''userAgent'', JStr ''UA'')])"
    by code_simp
  from getFingerprint_missing_accept_language [OF h k, of example_parse] v s n
  show ?thesis by blast
qed

section \<open>Validation of the options\<close>

lemma is_string_iff: "is_string v \<longleftrightarrow> ow_valid ow_string v"
  by (cases v) (simp_all add: is_string_def)

lemma is_number_iff: "is_number v \<longleftrightarrow> ow_valid ow_number v"
  by (cases v) (simp_all add: is_number_def)

lemma browser_specification_ok_iff:
  "browser_specification_ok b \<longleftrightarrow> ow_valid (ow_object_exactShape browserSpecificationShape) b"
  by (auto simp: browser_specification_ok_def browserSpecificationShape_def
      is_string_iff is_number_iff list_all_iff)

lemma field_ok_strings:
  assumes "f \<noteq> ''browsers''" and "f \<noteq> ''httpVersion''"
  shows "field_ok f v \<longleftrightarrow> ow_valid (ow_optional (ow_array_ofType ow_string)) v"
proof -
  have "list_all is_string xs \<longleftrightarrow> list_all (ow_valid ow_string) xs" for xs
    by (simp add: list_all_iff is_string_iff)
  with assms show ?thesis
    by (cases v) (simp_all add: field_ok_def)
qed

lemma field_ok_browsers:
  "field_ok ''browsers'' v \<longleftrightarrow>
     ow_valid (ow_optional (ow_array_ofType
       (ow_any [ow_object_exactShape browserSpecificationShape, ow_string]))) v"
proof -
  have "list_all (\<lambda>x. is_string x \<or> browser_specification_ok x) xs
        \<longleftrightarrow> list_all (ow_valid (ow_any [ow_object_exactShape browserSpecificationShape, ow_string])) xs"
    for xs
    unfolding list_all_iff browser_specification_ok_iff is_string_iff by auto
  then show ?thesis
    by (cases v) (simp_all add: field_ok_def)
qed

lemma field_ok_httpVersion:
  "field_ok ''httpVersion'' v \<longleftrightarrow> ow_valid (ow_optional ow_string) v"
  by (simp add: field_ok_def is_string_iff)

lemma field_ok_shape:
  "list_all (\<lambda>kp. \<forall>v. field_ok (fst kp) v = ow_valid (snd kp) v) headerGeneratorOptionsShape"
  unfolding headerGeneratorOptionsShape_def list.pred_inject fst_conv snd_conv
  by (intro conjI allI field_ok_browsers field_ok_httpVersion field_ok_strings) simp_all

lemma field_ok_iff:
  assumes "kp \<in> set headerGeneratorOptionsShape"
  shows "field_ok (fst kp) v \<longleftrightarrow> ow_valid (snd kp) v"
  using field_ok_shape assms unfolding list_all_iff by blast

lemma shape_fields: "map fst headerGeneratorOptionsShape = option_fields"
  by (simp add: headerGeneratorOptionsShape_def option_fields_def)

lemma find_filter: "find P xs = (case filter P xs of [] \<Rightarrow> None | x # _ \<Rightarrow> Some x)"
  by (induction xs) auto

lemma exact_error_first_offending:
  "exact_error headerGeneratorOptionsShape options = first_offending options"
proof -
  have v: "(\<not> ow_valid (snd kp) (prop_of options (fst kp))) = (\<not> field_ok (fst kp) (prop_of options (fst kp)))"
    if "kp \<in> set headerGeneratorOptionsShape" for kp
    using field_ok_iff [OF that] by simp
  have "filter (\<lambda>f. \<not> field_ok f (prop_of options f)) (map fst headerGeneratorOptionsShape)
          = map fst (filter (\<lambda>kp. \<not> ow_valid (snd kp) (prop_of options (fst kp))) headerGeneratorOptionsShape)"
    unfolding filter_map o_def using v by (intro arg_cong [where f = "map fst"] filter_cong) auto
  then have f: "filter (\<lambda>f. \<not> field_ok f (prop_of options f)) option_fields
          = map fst (filter (\<lambda>kp. \<not> ow_valid (snd kp) (prop_of options (fst kp))) headerGeneratorOptionsShape)"
    by (simp add: shape_fields)
  show ?thesis
    unfolding exact_error_def first_offending_def find_filter f shape_fields
    by (auto split: list.splits)
qed

text \<open>
  C3, as stated, fails: the shape gives \<^verbatim>\<open>locales\<close> no bound on its length. Options with
  eleven locales pass the validation; \<open>getFingerprint\<close> goes on to call the header
  generator and the constructor goes on to build one.
\<close>

theorem validation_locales_counterexample:
  "validate_options (JObj [(''locales'', JArr (replicate 11 (JStr ''en'')))]) = None
   \<and> fst (getFingerprint (example_generator [] []) example_parse
            (JObj [(''locales'', JArr (replicate 11 (JStr ''en'')))]) JUndefined)
       = [getHeaders (JObj [(''locales'', JArr (replicate 11 (JStr ''en'')))]) (JObj []),
          generateSample [(''userAgent'', JUndefined)]]
   \<and> fst (FingerprintGenerator_new example_HeaderGenerator example_BayesianNetwork
            (JObj [(''locales'', JArr (replicate 11 (JStr ''en'')))]))
       = [new_HeaderGenerator (JObj [(''locales'', JArr (replicate 11 (JStr ''en'')))]),
          new_BayesianNetwork]"
  by code_simp

text \<open>
  C3, amended. When the options are an object in which one of the five fields is not as
  its shape says (as an array with an element of the wrong type), or which has a key that
  is none of the five, both the constructor and \<open>getFingerprint\<close> fail with an
  \<^verbatim>\<open>ArgumentError\<close>, return no result and have called no collaborator. The error names
  the first of the five fields, in the order of the shape, that is not as its shape says,
  and when there is none, the first key of the options that is none of the five.
\<close>

theorem validation_names_first_offending_field:
  assumes "is_object (default_arg options)"
    and "(k \<in> set option_fields \<and> \<not> field_ok k (prop_of (default_arg options) k))
         \<or> (k \<in> set (own_keys (default_arg options)) \<and> k \<notin> set option_fields)"
  shows "\<exists>label. first_offending (default_arg options) = Some label
           \<and> getFingerprint this JSON_parse options requestDependentHeaders
               = ([], Inl (ArgumentError label))
           \<and> FingerprintGenerator_new HeaderGenerator BayesianNetwork options
               = ([], Inl (ArgumentError label))"
proof -
  let ?o = "default_arg options"
  have "first_offending ?o \<noteq> None"
  proof (cases "filter (\<lambda>f. \<not> field_ok f (prop_of ?o f)) option_fields")
    case Nil
    then have "\<forall>f \<in> set option_fields. field_ok f (prop_of ?o f)"
      by (simp add: filter_empty_conv)
    with assms(2) have "k \<in> set (filter (\<lambda>k. k \<notin> set option_fields) (own_keys ?o))"
      by auto
    then have "filter (\<lambda>k. k \<notin> set option_fields) (own_keys ?o) \<noteq> []"
      by (auto simp: filter_empty_conv)
    with Nil show ?thesis
      by (simp add: first_offending_def split: list.splits)
  next
    case (Cons f fs)
    then show ?thesis
      by (simp add: first_offending_def)
  qed
  then obtain label where l: "first_offending ?o = Some label"
    by auto
  with assms(1) have "validate_options ?o = Some (ArgumentError label)"
    by (simp add: validate_options_def exact_error_first_offending)
  then have "getFingerprint this JSON_parse options requestDependentHeaders
               = ([], Inl (ArgumentError label))"
    and "FingerprintGenerator_new HeaderGenerator BayesianNetwork options
               = ([], Inl (ArgumentError label))"
    by (simp_all add: getFingerprint_def FingerprintGenerator_new_def)
  with l show ?thesis by blast
qed

theorem validation_names_first_offending_field_witness:
  "getFingerprint (example_generator [] []) example_parse
      (JObj [(''proxy'', JStr ''x''), (''locales'', JArr [JStr ''en'', JNum 1]),
             (''devices'', JStr ''mobile'')]) JUndefined
     = ([], Inl (ArgumentError ''devices''))
   \<and> FingerprintGenerator_new example_HeaderGenerator example_BayesianNetwork
      (JObj [(''proxy'', JStr ''x''), (''locales'', JArr [JStr ''en'', JNum 1]),
             (''devices'', JStr ''mobile'')])
     = ([], Inl (ArgumentError ''devices''))
   \<and> getFingerprint (example_generator [] []) example_parse
      (JObj [(''proxy'', JStr ''x''), (''locales'', JArr [JStr ''en'']), (''port'', JNum 1)]) JUndefined
     = ([], Inl (ArgumentError ''proxy''))"
proof -
  let ?o1 = "JObj [(''proxy'', JStr ''x''), (''locales'', JArr [JStr ''en'', JNum 1]),
                   (''devices'', JStr ''mobile'')]"
  let ?o2 = "JObj [(''proxy'', JStr ''x''), (''locales'', JArr [JStr ''en'']), (''port'', JNum 1)]"
  have d: "default_arg ?o1 = ?o1" "default_arg ?o2 = ?o2"
    by (simp_all add: default_arg_def)
  have ob: "is_object (default_arg ?o1)" "is_object (default_arg ?o2)"
    by (simp_all add: default_arg_def is_object_def)
  have off1: "(''locales'' \<in> set option_fields
                 \<and> \<not> field_ok ''locales'' (prop_of (default_arg ?o1) ''locales''))
              \<or> (''locales'' \<in> set (own_keys (default_arg ?o1)) \<and> ''locales'' \<notin> set option_fields)"
    and off2: "(''port'' \<in> set option_fields
                 \<and> \<not> field_ok ''port'' (prop_of (default_arg ?o2) ''port''))
              \<or> (''port'' \<in> set (own_keys (default_arg ?o2)) \<and> ''port'' \<notin> set option_fields)"
    unfolding d by code_simp+
  have f: "first_offending ?o1 = Some ''devices''" "first_offending ?o2 = Some ''proxy''"
    by code_simp+
  from validation_names_first_offending_field [OF ob(1) off1, of "example_generator [] []" example_parse
      JUndefined example_HeaderGenerator example_BayesianNetwork]
    validation_names_first_offending_field [OF ob(2) off2, of "example_generator [] []" example_parse
      JUndefined example_HeaderGenerator example_BayesianNetwork]
  show ?thesis unfolding d f by simp
qed

section \<open>What the decoding pass leaves\<close>

lemma decode_loop_entry:
  assumes "decode_loop JSON_parse ks fp = Inr fp'" and "distinct ks"
  shows "map_of fp' a =
           (if a \<in> set ks then Option.bind (map_of fp a) (decoded_attribute JSON_parse)
            else map_of fp a)"
  using assms
proof (induction ks arbitrary: fp)
  case Nil
  then show ?case by simp
next
  case (Cons k ks)
  from Cons.prems(2) have d: "distinct ks" and k: "k \<notin> set ks" by simp_all
  show ?case
  proof (cases "obj_has fp k")
    case False
    with Cons.prems(1) have "decode_loop JSON_parse ks fp = Inr fp'" by simp
    from Cons.IH [OF this d] False show ?thesis
      by (auto simp: obj_has_map_of)
  next
    case True
    then obtain v where v: "map_of fp k = Some v" "obj_get fp k = v"
      by (auto simp: obj_has_map_of obj_get_def)
    show ?thesis
    proof (cases "loose_eq_missing v")
      case True
      with Cons.prems(1) \<open>obj_has fp k\<close> v
      have "decode_loop JSON_parse ks (obj_delete fp k) = Inr fp'" by simp
      moreover from True have "decoded_attribute JSON_parse v = None"
        by (simp add: decoded_attribute_def)
      ultimately show ?thesis
        using Cons.IH [OF _ d, of "obj_delete fp k"] k v
        by (auto simp: map_of_obj_delete)
    next
      case False
      with Cons.prems(1) \<open>obj_has fp k\<close> v obtain s where s: "v = JStr s"
        by (cases v) auto
      show ?thesis
      proof (cases "startsWith s STRINGIFIED_PREFIX")
        case True
        with Cons.prems(1) \<open>obj_has fp k\<close> v s False obtain dv where
          dv: "JSON_parse (drop (length STRINGIFIED_PREFIX) s) = Inr dv"
          and r: "decode_loop JSON_parse ks (obj_set fp k dv) = Inr fp'"
          by (auto split: sum.splits)
        from s False True dv have "decoded_attribute JSON_parse v = Some dv"
          by (simp add: decoded_attribute_def)
        with Cons.IH [OF r d] k v show ?thesis
          by (auto simp: map_of_obj_set)
      next
        case nopre: False
        with Cons.prems(1) \<open>obj_has fp k\<close> v s False
        have "decode_loop JSON_parse ks fp = Inr fp'" by simp
        moreover from s False nopre have "decoded_attribute JSON_parse v = Some v"
          by (simp add: decoded_attribute_def)
        ultimately show ?thesis
          using Cons.IH [OF _ d, of fp] k v
          by auto
      qed
    qed
  qed
qed

lemma decode_pass_entry:
  assumes "decode_pass JSON_parse sample = Inr fp1"
  shows "map_of fp1 a = Option.bind (map_of sample a) (decoded_attribute JSON_parse)"
proof -
  have "a \<notin> set (obj_keys sample) \<Longrightarrow> map_of sample a = None"
    by (simp add: obj_keys_def map_of_eq_None_iff)
  with decode_loop_entry [OF assms [unfolded decode_pass_def], of a] show ?thesis
    by (auto simp: obj_keys_def)
qed

lemma decoded_attribute_stringified:
  assumes "JSON_parse payload = Inr d"
  shows "decoded_attribute JSON_parse (JStr (STRINGIFIED_PREFIX @ payload)) = Some d"
  using assms
  by (simp add: decoded_attribute_def startsWith_def STRINGIFIED_PREFIX_def
      MISSING_VALUE_DATASET_TOKEN_def)

lemma normalize_sample_steps:
  assumes "decode_pass JSON_parse sample = Inr fp1"
    and "hoist ''pluginCharacteristics'' (plain_object fp1) = Inr F2"
    and "hoist ''screenCharacteristics'' F2 = Inr F3"
  shows "normalize_sample JSON_parse sample = Inr F3"
  using assms by (simp add: normalize_sample_def hoist_both_def)

lemma normalize_sample_returns:
  assumes "normalize_sample JSON_parse sample = Inr F3"
  obtains fp1 F2 where "decode_pass JSON_parse sample = Inr fp1"
    and "hoist ''pluginCharacteristics'' (plain_object fp1) = Inr F2"
    and "hoist ''screenCharacteristics'' F2 = Inr F3"
  using assms by (auto simp: normalize_sample_def hoist_both_def split: sum.splits)

section \<open>Attributes at the missing-value token\<close>

text \<open>
  C7, as stated, fails: an attribute at the missing-value token is deleted by the first
  loop, but a later step can create the key again. Here \<^verbatim>\<open>plugins\<close> is at the token and
  the decoded \<^verbatim>\<open>pluginCharacteristics\<close> has a property \<^verbatim>\<open>plugins\<close>, which line 92 hoists;
  and a \<^verbatim>\<open>languages\<close> attribute at the token is set again by line 109. In the last run the
  decoded \<^verbatim>\<open>pluginCharacteristics\<close> has a property \<^verbatim>\<open>__proto__\<close>: line 92 makes its value
  the prototype of the fingerprint, line 97 finds the inherited \<^verbatim>\<open>screenCharacteristics\<close>,
  and line 99 creates \<^verbatim>\<open>a\<close> again.
\<close>

theorem missing_value_counterexample:
  "map_of [(''plugins'', JStr ''*MISSING_VALUE*''),
           (''pluginCharacteristics'', JStr ''*STRINGIFIED*{\"plugins\":\"*STRINGIFIED*[1,2,3]\"}'')]
     ''plugins'' = Some (JStr MISSING_VALUE_DATASET_TOKEN)
   \<and> normalize_sample example_parse
        [(''plugins'', JStr ''*MISSING_VALUE*''),
         (''pluginCharacteristics'', JStr ''*STRINGIFIED*{\"plugins\":\"*STRINGIFIED*[1,2,3]\"}'')]
      = Inr \<lparr>props = [(''plugins'', JStr ''*STRINGIFIED*[1,2,3]'')], proto = Object_prototype\<rparr>
   \<and> obj_has [(''plugins'', JStr ''*STRINGIFIED*[1,2,3]'')] ''plugins''
   \<and> snd (getFingerprint
        (example_generator [(''User-Agent'', JStr ''UA''), (''Accept-Language'', JStr ''en'')]
           [(''languages'', JStr ''*MISSING_VALUE*'')])
        example_parse JUndefined JUndefined)
      = Inr \<lparr>fingerprint =
               \<lparr>props = [(''userAgent'', JStr ''UA''), (''languages'', JArr [JStr ''en''])],
                proto = Object_prototype\<rparr>,
             headers = [(''User-Agent'', JStr ''UA''), (''Accept-Language'', JStr ''en'')]\<rparr>
   \<and> normalize_sample example_parse
        [(''a'', JStr ''*MISSING_VALUE*''),
         (''pluginCharacteristics'',
          JStr ''*STRINGIFIED*{\"__proto__\":{\"screenCharacteristics\":{\"a\":1}}}'')]
      = Inr \<lparr>props = [(''a'', JNum 1)],
              proto = Value_prototype (JObj [(''screenCharacteristics'', JObj [(''a'', JNum 1)])])\<rparr>"
  by code_simp

text \<open>
  C7, amended. An attribute whose value is loosely equal to the missing-value token is
  absent after the first loop. It is no own key of the normalised fingerprint when
  neither hoisting loop visits a property of its name, and none of the returned
  fingerprint when moreover its name is not \<^verbatim>\<open>languages\<close>. When neither loop visits a
  property named \<^verbatim>\<open>__proto__\<close>, the fingerprint still has the built-in prototype, so it does
  not inherit the key either.
\<close>

theorem missing_value_dropped:
  assumes "map_of sample a = Some v" and "loose_eq_missing v"
    and "decode_pass JSON_parse sample = Inr fp1"
    and "hoist ''pluginCharacteristics'' (plain_object fp1) = Inr F2"
    and "hoist ''screenCharacteristics'' F2 = Inr F3"
    and "a \<notin> set (hoist_keys ''pluginCharacteristics'' (plain_object fp1))"
    and "a \<notin> set (hoist_keys ''screenCharacteristics'' F2)"
  shows "\<not> obj_has fp1 a
         \<and> normalize_sample JSON_parse sample = Inr F3
         \<and> \<not> obj_has (props F3) a
         \<and> (a \<noteq> ''languages'' \<longrightarrow> \<not> obj_has (props (fp_set F3 ''languages'' (JArr ls))) a)
         \<and> (''__proto__'' \<notin> set (hoist_keys ''pluginCharacteristics'' (plain_object fp1))
              \<and> ''__proto__'' \<notin> set (hoist_keys ''screenCharacteristics'' F2)
             \<longrightarrow> proto (fp_set F3 ''languages'' (JArr ls)) = Object_prototype)"
proof -
  from assms(2) have "decoded_attribute JSON_parse v = None"
    by (simp add: decoded_attribute_def)
  with decode_pass_entry [OF assms(3), of a] assms(1) have 1: "\<not> obj_has fp1 a"
    by (simp add: obj_has_map_of)
  have 2: "\<not> obj_has (props F2) a"
  proof (cases "a = ''pluginCharacteristics''")
    case True
    with hoist_removes [OF assms(4)] show ?thesis by simp
  next
    case False
    from hoist_other [OF assms(4) assms(6) False] 1 show ?thesis
      by (simp add: obj_has_map_of plain_object_simps)
  qed
  have 3: "\<not> obj_has (props F3) a"
  proof (cases "a = ''screenCharacteristics''")
    case True
    with hoist_removes [OF assms(5)] show ?thesis by simp
  next
    case False
    from hoist_other [OF assms(5) assms(7) False] 2 show ?thesis
      by (simp add: obj_has_map_of)
  qed
  have 4: "proto (fp_set F3 ''languages'' (JArr ls)) = Object_prototype"
    if "''__proto__'' \<notin> set (hoist_keys ''pluginCharacteristics'' (plain_object fp1))"
      and "''__proto__'' \<notin> set (hoist_keys ''screenCharacteristics'' F2)"
    using hoist_proto [OF assms(4) that(1)] hoist_proto [OF assms(5) that(2)]
    by (simp add: fp_set_languages plain_object_simps)
  from 1 3 4 normalize_sample_steps [OF assms(3,4,5)] show ?thesis
    by (simp add: fp_set_languages obj_has_set)
qed

theorem missing_value_dropped_witness:
  "\<not> obj_has [(''userAgent'', JStr ''UA''), (''a'', JNum 1)] ''webdriver''
   \<and> normalize_sample example_parse
        [(''userAgent'', JStr ''UA''), (''webdriver'', JStr ''*MISSING_VALUE*''),
         (''screenCharacteristics'', JStr ''*STRINGIFIED*{\"a\":1}'')]
      = Inr (plain_object [(''userAgent'', JStr ''UA''), (''a'', JNum 1)])
   \<and> \<not> obj_has (props (fp_set (plain_object [(''userAgent'', JStr ''UA''), (''a'', JNum 1)])
                          ''languages'' (JArr [JStr ''en''])))
         ''webdriver''
   \<and> proto (fp_set (plain_object [(''userAgent'', JStr ''UA''), (''a'', JNum 1)])
              ''languages'' (JArr [JStr ''en''])) = Object_prototype"
proof -
  let ?sample = "[(''userAgent'', JStr ''UA''), (''webdriver'', JStr ''*MISSING_VALUE*''),
         (''screenCharacteristics'', JStr ''*STRINGIFIED*{\"a\":1}'')]"
  let ?fp1 = "[(''userAgent'', JStr ''UA''), (''screenCharacteristics'', JObj [(''a'', JNum 1)])]"
  let ?F3 = "plain_object [(''userAgent'', JStr ''UA''), (''a'', JNum 1)]"
  have a: "map_of ?sample ''webdriver'' = Some (JStr ''*MISSING_VALUE*'')"
    and b: "loose_eq_missing (JStr ''*MISSING_VALUE*'')"
    and c: "decode_pass example_parse ?sample = Inr ?fp1"
    and d: "hoist ''pluginCharacteristics'' (plain_object ?fp1) = Inr (plain_object ?fp1)"
    and e: "hoist ''screenCharacteristics'' (plain_object ?fp1) = Inr ?F3"
    and f: "''webdriver'' \<notin> set (hoist_keys ''pluginCharacteristics'' (plain_object ?fp1))"
    and g: "''webdriver'' \<notin> set (hoist_keys ''screenCharacteristics'' (plain_object ?fp1))"
    and p: "''__proto__'' \<notin> set (hoist_keys ''pluginCharacteristics'' (plain_object ?fp1))
              \<and> ''__proto__'' \<notin> set (hoist_keys ''screenCharacteristics'' (plain_object ?fp1))"
    by code_simp+
  note t = missing_value_dropped [OF a b c d e f g, of "[JStr ''en'']"]
  have l: "''webdriver'' \<noteq> ''languages''" by simp
  note 1 = t [THEN conjunct2, THEN conjunct1]
  note 2 = t [THEN conjunct2, THEN conjunct2, THEN conjunct1, unfolded plain_object_simps]
  note 3 = t [THEN conjunct2, THEN conjunct2, THEN conjunct2, THEN conjunct1, rule_format, OF l]
  note 4 = t [THEN conjunct2, THEN conjunct2, THEN conjunct2, THEN conjunct2, rule_format, OF p]
  from 1 2 3 4 show ?thesis by blast
qed

section \<open>A stringified value inside pluginCharacteristics\<close>

lemma own_or_no_keys:
  assumes "proto F = Object_prototype \<or> proto F = Null_prototype"
  shows "obj_has (props F) c \<or> ''__proto__'' \<notin> set (hoist_keys c F)"
  using assms by (auto simp: hoist_keys_def fp_in_def)

text \<open>
  C6, as stated, fails: the first loop decodes the attributes of the sample, not the
  properties inside a decoded value. With \<^verbatim>\<open>pluginCharacteristics\<close> decoding to the
  mapping of \<^verbatim>\<open>plugins\<close> to the string \<^verbatim>\<open>*STRINGIFIED*[1,2,3]\<close>, the normalised fingerprint
  has \<^verbatim>\<open>plugins\<close> at that string, not at the array.
\<close>

theorem nested_stringified_counterexample:
  "map_of [(''pluginCharacteristics'', JStr ''*STRINGIFIED*{\"plugins\":\"*STRINGIFIED*[1,2,3]\"}'')]
     ''pluginCharacteristics''
     = Some (JStr (STRINGIFIED_PREFIX @ ''{\"plugins\":\"*STRINGIFIED*[1,2,3]\"}''))
   \<and> example_parse ''{\"plugins\":\"*STRINGIFIED*[1,2,3]\"}''
     = Inr (JObj [(''plugins'', JStr ''*STRINGIFIED*[1,2,3]'')])
   \<and> example_parse ''[1,2,3]'' = Inr (JArr [JNum 1, JNum 2, JNum 3])
   \<and> normalize_sample example_parse
        [(''pluginCharacteristics'', JStr ''*STRINGIFIED*{\"plugins\":\"*STRINGIFIED*[1,2,3]\"}'')]
      = Inr \<lparr>props = [(''plugins'', JStr ''*STRINGIFIED*[1,2,3]'')], proto = Object_prototype\<rparr>
   \<and> map_of [(''plugins'', JStr ''*STRINGIFIED*[1,2,3]'')] ''plugins''
      \<noteq> Some (JArr [JNum 1, JNum 2, JNum 3])"
  by code_simp

text \<open>
  C6, amended. When \<^verbatim>\<open>pluginCharacteristics\<close> decodes to the mapping of \<^verbatim>\<open>plugins\<close> to
  the string \<^verbatim>\<open>*STRINGIFIED*[1,2,3]\<close>, the other attributes decode, and the loop over
  \<^verbatim>\<open>screenCharacteristics\<close> visits no property named \<^verbatim>\<open>plugins\<close>,
  \<^verbatim>\<open>pluginCharacteristics\<close> or \<^verbatim>\<open>screenCharacteristics\<close> (as when the sample has no such
  attribute), the normalisation returns a fingerprint that has \<^verbatim>\<open>plugins\<close> at that very
  string and has no key \<^verbatim>\<open>pluginCharacteristics\<close> of its own.
\<close>

theorem nested_stringified_hoisted_undecoded:
  assumes "map_of sample ''pluginCharacteristics'' = Some (JStr (STRINGIFIED_PREFIX @ payload))"
    and "JSON_parse payload = Inr (JObj [(''plugins'', JStr ''*STRINGIFIED*[1,2,3]'')])"
    and "decode_pass JSON_parse sample = Inr fp1"
    and "''plugins'' \<notin> set (hoist_keys ''screenCharacteristics'' (plain_object fp1))"
    and "''pluginCharacteristics'' \<notin> set (hoist_keys ''screenCharacteristics'' (plain_object fp1))"
    and "''screenCharacteristics'' \<notin> set (hoist_keys ''screenCharacteristics'' (plain_object fp1))"
  shows "\<exists>fp. normalize_sample JSON_parse sample = Inr fp
           \<and> map_of (props fp) ''plugins'' = Some (JStr ''*STRINGIFIED*[1,2,3]'')
           \<and> \<not> obj_has (props fp) ''pluginCharacteristics''"
proof -
  let ?p = "''pluginCharacteristics''" and ?s = "''screenCharacteristics''"
  let ?n = "JObj [(''plugins'', JStr ''*STRINGIFIED*[1,2,3]'')]"
  let ?F1 = "plain_object fp1"
  from decode_pass_entry [OF assms(3), of ?p] assms(1)
    decoded_attribute_stringified [of JSON_parse payload ?n, OF assms(2)]
  have p: "map_of fp1 ?p = Some ?n" by simp
  then have own: "obj_has (props ?F1) ?p"
    and g: "fp_get ?F1 ?p = ?n"
    and k: "hoist_keys ?p ?F1 = [''plugins'']"
    by (simp_all add: plain_object_simps obj_has_map_of obj_get_def hoist_keys_def
        for_in_keys_def obj_keys_def)
  have "?p \<notin> set (hoist_keys ?p ?F1)" and "obj_has (props ?F1) ?p \<or> ''__proto__'' \<notin> set (hoist_keys ?p ?F1)"
    and "?p \<noteq> ''__proto__''"
    using own by (simp_all add: k)
  from hoist_fixed [OF this] obtain F2 where
    h2: "hoist ?p ?F1 = Inr F2"
    and m2: "\<And>a. a \<noteq> ''__proto__'' \<Longrightarrow> map_of (props F2) a =
             (if a = ?p then None
              else if a \<in> set (hoist_keys ?p ?F1) then Some (prop_of (fp_get ?F1 ?p) a)
              else map_of (props ?F1) a)"
    by blast
  have "''__proto__'' \<notin> set (hoist_keys ?p ?F1)" by (simp add: k)
  from hoist_proto [OF h2 this] have pr2: "proto F2 = proto ?F1" .
  have "map_of (props F2) ?s = map_of (props ?F1) ?s"
    by (simp add: m2 k)
  from hoist_keys_cong [OF this pr2]
  have ks: "hoist_keys ?s F2 = hoist_keys ?s ?F1" .
  from pr2 have "obj_has (props F2) ?s \<or> ''__proto__'' \<notin> set (hoist_keys ?s F2)"
    by (intro own_or_no_keys) (simp add: plain_object_simps)
  moreover from assms(6) have "?s \<notin> set (hoist_keys ?s F2)"
    by (simp add: ks)
  moreover have "?s \<noteq> ''__proto__''" by simp
  ultimately obtain F3 where
    h3: "hoist ?s F2 = Inr F3"
    and m3: "\<And>a. a \<noteq> ''__proto__'' \<Longrightarrow> map_of (props F3) a =
             (if a = ?s then None
              else if a \<in> set (hoist_keys ?s F2) then Some (prop_of (fp_get F2 ?s) a)
              else map_of (props F2) a)"
    using hoist_fixed [of ?s F2] by blast
  have pv: "prop_of (fp_get ?F1 ?p) ''plugins'' = JStr ''*STRINGIFIED*[1,2,3]''"
    unfolding g by (simp add: prop_of_def obj_get_def obj_has_def)
  have "map_of (props F3) ''plugins'' = Some (JStr ''*STRINGIFIED*[1,2,3]'')"
    using assms(4) by (simp add: m3 ks m2 k pv)
  moreover have "map_of (props F3) ?p = None"
    using assms(5) by (simp add: m3 ks m2)
  ultimately show ?thesis
    using normalize_sample_steps [OF assms(3) h2 h3]
    by (simp add: obj_has_map_of)
qed

theorem nested_stringified_hoisted_undecoded_witness:
  "normalize_sample example_parse
     [(''userAgent'', JStr ''UA''),
      (''pluginCharacteristics'', JStr ''*STRINGIFIED*{\"plugins\":\"*STRINGIFIED*[1,2,3]\"}''),
      (''screenCharacteristics'', JStr ''*STRINGIFIED*{\"a\":1}'')]
     = Inr (plain_object
         [(''userAgent'', JStr ''UA''), (''plugins'', JStr ''*STRINGIFIED*[1,2,3]''), (''a'', JNum 1)])
   \<and> (\<exists>fp. normalize_sample example_parse
     [(''userAgent'', JStr ''UA''),
      (''pluginCharacteristics'', JStr ''*STRINGIFIED*{\"plugins\":\"*STRINGIFIED*[1,2,3]\"}''),
      (''screenCharacteristics'', JStr ''*STRINGIFIED*{\"a\":1}'')] = Inr fp
        \<and> map_of (props fp) ''plugins'' = Some (JStr ''*STRINGIFIED*[1,2,3]'')
        \<and> \<not> obj_has (props fp) ''pluginCharacteristics'')"
proof -
  let ?sample = "[(''userAgent'', JStr ''UA''),
      (''pluginCharacteristics'', JStr ''*STRINGIFIED*{\"plugins\":\"*STRINGIFIED*[1,2,3]\"}''),
      (''screenCharacteristics'', JStr ''*STRINGIFIED*{\"a\":1}'')]"
  let ?fp1 = "[(''userAgent'', JStr ''UA''),
      (''pluginCharacteristics'', JObj [(''plugins'', JStr ''*STRINGIFIED*[1,2,3]'')]),
      (''screenCharacteristics'', JObj [(''a'', JNum 1)])]"
  have a: "map_of ?sample ''pluginCharacteristics''
             = Some (JStr (STRINGIFIED_PREFIX @ ''{\"plugins\":\"*STRINGIFIED*[1,2,3]\"}''))"
    and b: "example_parse ''{\"plugins\":\"*STRINGIFIED*[1,2,3]\"}''
             = Inr (JObj [(''plugins'', JStr ''*STRINGIFIED*[1,2,3]'')])"
    and c: "decode_pass example_parse ?sample = Inr ?fp1"
    and d: "''plugins'' \<notin> set (hoist_keys ''screenCharacteristics'' (plain_object ?fp1))"
    and e: "''pluginCharacteristics'' \<notin> set (hoist_keys ''screenCharacteristics'' (plain_object ?fp1))"
    and f: "''screenCharacteristics'' \<notin> set (hoist_keys ''screenCharacteristics'' (plain_object ?fp1))"
    and r: "normalize_sample example_parse ?sample
     = Inr (plain_object
         [(''userAgent'', JStr ''UA''), (''plugins'', JStr ''*STRINGIFIED*[1,2,3]''), (''a'', JNum 1)])"
    by code_simp+
  from nested_stringified_hoisted_undecoded [OF a b c d e f] r show ?thesis
    by simp
qed

section \<open>The order of the two hoisting steps\<close>

lemma hoist_plain:
  assumes "c \<notin> set (hoist_keys c F)" and "''__proto__'' \<notin> set (hoist_keys c F)"
    and "c \<noteq> ''__proto__''"
  shows "\<exists>F'. hoist c F = Inr F' \<and> proto F' = proto F
           \<and> (\<forall>a. map_of (props F') a =
                 (if a = c then None
                  else if a \<in> set (hoist_keys c F) then Some (prop_of (fp_get F c) a)
                  else map_of (props F) a))"
proof -
  from hoist_fixed [OF assms(1) _ assms(3)] assms(2) obtain F' where
    h: "hoist c F = Inr F'"
    and m: "\<And>a. a \<noteq> ''__proto__'' \<Longrightarrow> map_of (props F') a =
               (if a = c then None
                else if a \<in> set (hoist_keys c F) then Some (prop_of (fp_get F c) a)
                else map_of (props F) a)"
    by blast
  from hoist_other [OF h assms(2)] assms(2,3)
  have "map_of (props F') ''__proto__'' = map_of (props F) ''__proto__''"
    by simp
  with m assms(2,3) have "\<forall>a. map_of (props F') a =
                 (if a = c then None
                  else if a \<in> set (hoist_keys c F) then Some (prop_of (fp_get F c) a)
                  else map_of (props F) a)"
    by (metis (full_types))
  with h hoist_proto [OF h assms(2)] show ?thesis by blast
qed

text \<open>
  C9, as stated, fails: disjoint key sets are not enough when one of the keys names a
  container. Here the decoded \<^verbatim>\<open>pluginCharacteristics\<close> has the single property
  \<^verbatim>\<open>screenCharacteristics\<close> and the decoded \<^verbatim>\<open>screenCharacteristics\<close> the single property
  \<^verbatim>\<open>b\<close>. In the source's order the first step overwrites the second container, whose
  property \<^verbatim>\<open>b\<close> is lost; in the other order \<^verbatim>\<open>b\<close> is hoisted and a key
  \<^verbatim>\<open>screenCharacteristics\<close> stays. The same happens through a property \<^verbatim>\<open>__proto__\<close>: in the
  second pair of runs the decoded \<^verbatim>\<open>pluginCharacteristics\<close> has the single property
  \<^verbatim>\<open>__proto__\<close>, whose value becomes the prototype and brings an inherited
  \<^verbatim>\<open>screenCharacteristics\<close> that only the source's order then hoists.
\<close>

theorem hoisting_order_counterexample:
  "hoist_keys ''pluginCharacteristics'' (plain_object
     [(''pluginCharacteristics'', JObj [(''screenCharacteristics'', JObj [(''a'', JNum 1)])]),
      (''screenCharacteristics'', JObj [(''b'', JNum 2)])]) = [''screenCharacteristics'']
   \<and> hoist_keys ''screenCharacteristics'' (plain_object
     [(''pluginCharacteristics'', JObj [(''screenCharacteristics'', JObj [(''a'', JNum 1)])]),
      (''screenCharacteristics'', JObj [(''b'', JNum 2)])]) = [''b'']
   \<and> hoist_both (plain_object
     [(''pluginCharacteristics'', JObj [(''screenCharacteristics'', JObj [(''a'', JNum 1)])]),
      (''screenCharacteristics'', JObj [(''b'', JNum 2)])]) = Inr (plain_object [(''a'', JNum 1)])
   \<and> hoist_both_screen_first (plain_object
     [(''pluginCharacteristics'', JObj [(''screenCharacteristics'', JObj [(''a'', JNum 1)])]),
      (''screenCharacteristics'', JObj [(''b'', JNum 2)])])
       = Inr (plain_object [(''b'', JNum 2), (''screenCharacteristics'', JObj [(''a'', JNum 1)])])
   \<and> map_of [(''a'', JNum 1)] ''b''
       \<noteq> map_of [(''b'', JNum 2), (''screenCharacteristics'', JObj [(''a'', JNum 1)])] ''b''
   \<and> hoist_both (plain_object
     [(''pluginCharacteristics'',
       JObj [(''__proto__'', JObj [(''screenCharacteristics'', JObj [(''b'', JNum 2)])])])])
       = Inr \<lparr>props = [(''b'', JNum 2)],
               proto = Value_prototype (JObj [(''screenCharacteristics'', JObj [(''b'', JNum 2)])])\<rparr>
   \<and> hoist_both_screen_first (plain_object
     [(''pluginCharacteristics'',
       JObj [(''__proto__'', JObj [(''screenCharacteristics'', JObj [(''b'', JNum 2)])])])])
       = Inr \<lparr>props = [],
               proto = Value_prototype (JObj [(''screenCharacteristics'', JObj [(''b'', JNum 2)])])\<rparr>"
  by code_simp

text \<open>
  C9, amended. When neither loop visits a property named \<^verbatim>\<open>pluginCharacteristics\<close>,
  \<^verbatim>\<open>screenCharacteristics\<close> or \<^verbatim>\<open>__proto__\<close>, the two hoisting steps return a fingerprint in
  which every property of \<^verbatim>\<open>screenCharacteristics\<close> has the value it has there, also when
  \<^verbatim>\<open>pluginCharacteristics\<close> has a property of that name; and when the two key sets are
  disjoint, the steps taken in the other order return a fingerprint with the same own
  keys and values and the same prototype.
\<close>

theorem hoisting_order:
  assumes "''pluginCharacteristics'' \<notin> set (hoist_keys ''pluginCharacteristics'' F)"
    and "''screenCharacteristics'' \<notin> set (hoist_keys ''pluginCharacteristics'' F)"
    and "''__proto__'' \<notin> set (hoist_keys ''pluginCharacteristics'' F)"
    and "''pluginCharacteristics'' \<notin> set (hoist_keys ''screenCharacteristics'' F)"
    and "''screenCharacteristics'' \<notin> set (hoist_keys ''screenCharacteristics'' F)"
    and "''__proto__'' \<notin> set (hoist_keys ''screenCharacteristics'' F)"
  shows "\<exists>fa. hoist_both F = Inr fa
           \<and> (\<forall>k \<in> set (hoist_keys ''screenCharacteristics'' F).
                 map_of (props fa) k = Some (prop_of (fp_get F ''screenCharacteristics'') k))
           \<and> (set (hoist_keys ''pluginCharacteristics'' F)
                \<inter> set (hoist_keys ''screenCharacteristics'' F) = {} \<longrightarrow>
               (\<exists>fb. hoist_both_screen_first F = Inr fb
                     \<and> map_of (props fb) = map_of (props fa) \<and> proto fb = proto fa))"
proof -
  let ?p = "''pluginCharacteristics''" and ?s = "''screenCharacteristics''"
  let ?kp = "hoist_keys ?p F" and ?ks = "hoist_keys ?s F"
  let ?np = "fp_get F ?p" and ?ns = "fp_get F ?s"
  have np: "?p \<noteq> ''__proto__''" and ns: "?s \<noteq> ''__proto__''" by simp_all
  from hoist_plain [OF assms(1,3) np] obtain F2 where
    h2: "hoist ?p F = Inr F2" and p2: "proto F2 = proto F"
    and m2: "\<And>a. map_of (props F2) a =
             (if a = ?p then None else if a \<in> set ?kp then Some (prop_of ?np a) else map_of (props F) a)"
    by blast
  from assms(2) have "map_of (props F2) ?s = map_of (props F) ?s"
    by (simp add: m2)
  note c2 = hoist_keys_cong [OF this p2] fp_get_cong(1) [OF this p2]
  from assms(4,5,6) have "?p \<notin> set (hoist_keys ?s F2)" "?s \<notin> set (hoist_keys ?s F2)"
    "''__proto__'' \<notin> set (hoist_keys ?s F2)"
    by (simp_all add: c2)
  from hoist_plain [OF this(2,3) ns] obtain fa where
    ha: "hoist ?s F2 = Inr fa" and pa: "proto fa = proto F"
    and ma: "\<And>a. map_of (props fa) a =
             (if a = ?s then None else if a \<in> set ?ks then Some (prop_of ?ns a) else map_of (props F2) a)"
    unfolding c2 p2 by blast
  from h2 ha have a: "hoist_both F = Inr fa"
    by (simp add: hoist_both_def)
  from assms(5) have wins: "\<forall>k \<in> set ?ks. map_of (props fa) k = Some (prop_of ?ns k)"
    by (auto simp: ma)
  from hoist_plain [OF assms(5,6) ns] obtain Fq where
    hq: "hoist ?s F = Inr Fq" and pq: "proto Fq = proto F"
    and mq: "\<And>a. map_of (props Fq) a =
             (if a = ?s then None else if a \<in> set ?ks then Some (prop_of ?ns a) else map_of (props F) a)"
    by blast
  from assms(4) have "map_of (props Fq) ?p = map_of (props F) ?p"
    by (simp add: mq)
  note cq = hoist_keys_cong [OF this pq] fp_get_cong(1) [OF this pq]
  from assms(1,3) have "?p \<notin> set (hoist_keys ?p Fq)" "''__proto__'' \<notin> set (hoist_keys ?p Fq)"
    by (simp_all add: cq)
  from hoist_plain [OF this np] obtain fb where
    hb: "hoist ?p Fq = Inr fb" and pb: "proto fb = proto F"
    and mb: "\<And>a. map_of (props fb) a =
             (if a = ?p then None else if a \<in> set ?kp then Some (prop_of ?np a) else map_of (props Fq) a)"
    unfolding cq pq by blast
  from hq hb have b: "hoist_both_screen_first F = Inr fb"
    by (simp add: hoist_both_screen_first_def)
  have "map_of (props fb) = map_of (props fa)" if dis: "set ?kp \<inter> set ?ks = {}"
  proof
    fix x
    from dis have "x \<in> set ?kp \<Longrightarrow> x \<notin> set ?ks" by blast
    with assms show "map_of (props fb) x = map_of (props fa) x"
      by (auto simp: ma mb m2 mq)
  qed
  with a b wins pa pb show ?thesis by auto
qed

theorem hoisting_order_witness:
  "hoist_both (plain_object
     [(''pluginCharacteristics'', JObj [(''plugins'', JArr []), (''x'', JNum 1)]),
      (''screenCharacteristics'', JObj [(''availHeight'', JNum 2)])])
     = Inr (plain_object [(''plugins'', JArr []), (''x'', JNum 1), (''availHeight'', JNum 2)])
   \<and> hoist_both_screen_first (plain_object
     [(''pluginCharacteristics'', JObj [(''plugins'', JArr []), (''x'', JNum 1)]),
      (''screenCharacteristics'', JObj [(''availHeight'', JNum 2)])])
     = Inr (plain_object [(''availHeight'', JNum 2), (''plugins'', JArr []), (''x'', JNum 1)])
   \<and> map_of [(''availHeight'', JNum 2), (''plugins'', JArr []), (''x'', JNum 1)]
     = map_of [(''plugins'', JArr []), (''x'', JNum 1), (''availHeight'', JNum 2)]
   \<and> hoist_both (plain_object
     [(''pluginCharacteristics'', JObj [(''plugins'', JArr []), (''x'', JNum 1)]),
      (''screenCharacteristics'', JObj [(''x'', JNum 2)])])
     = Inr (plain_object [(''plugins'', JArr []), (''x'', JNum 2)])
   \<and> map_of [(''plugins'', JArr []), (''x'', JNum 2)] ''x'' = Some (JNum 2)"
proof -
  let ?p = "''pluginCharacteristics''" and ?s = "''screenCharacteristics''"
  let ?A = "plain_object [(''pluginCharacteristics'', JObj [(''plugins'', JArr []), (''x'', JNum 1)]),
      (''screenCharacteristics'', JObj [(''availHeight'', JNum 2)])]"
  let ?B = "plain_object [(''pluginCharacteristics'', JObj [(''plugins'', JArr []), (''x'', JNum 1)]),
      (''screenCharacteristics'', JObj [(''x'', JNum 2)])]"
  let ?fa = "plain_object [(''plugins'', JArr []), (''x'', JNum 1), (''availHeight'', JNum 2)]"
  let ?fb = "plain_object [(''availHeight'', JNum 2), (''plugins'', JArr []), (''x'', JNum 1)]"
  let ?fB = "plain_object [(''plugins'', JArr []), (''x'', JNum 2)]"
  have kA: "hoist_keys ?p ?A = [''plugins'', ''x'']" "hoist_keys ?s ?A = [''availHeight'']"
    and kB: "hoist_keys ?p ?B = [''plugins'', ''x'']" "hoist_keys ?s ?B = [''x'']"
    by code_simp+
  have rA: "hoist_both ?A = Inr ?fa"
    and rA': "hoist_both_screen_first ?A = Inr ?fb"
    and rB: "hoist_both ?B = Inr ?fB"
    and pB: "prop_of (fp_get ?B ?s) ''x'' = JNum 2"
    by code_simp+
  have A: "?p \<notin> set (hoist_keys ?p ?A)" "?s \<notin> set (hoist_keys ?p ?A)"
          "''__proto__'' \<notin> set (hoist_keys ?p ?A)"
          "?p \<notin> set (hoist_keys ?s ?A)" "?s \<notin> set (hoist_keys ?s ?A)"
          "''__proto__'' \<notin> set (hoist_keys ?s ?A)"
    and B: "?p \<notin> set (hoist_keys ?p ?B)" "?s \<notin> set (hoist_keys ?p ?B)"
          "''__proto__'' \<notin> set (hoist_keys ?p ?B)"
          "?p \<notin> set (hoist_keys ?s ?B)" "?s \<notin> set (hoist_keys ?s ?B)"
          "''__proto__'' \<notin> set (hoist_keys ?s ?B)"
    unfolding kA kB by simp_all
  have dis: "set (hoist_keys ?p ?A) \<inter> set (hoist_keys ?s ?A) = {}"
    unfolding kA by simp
  from hoisting_order [OF A] dis rA rA'
  have "map_of (props ?fb) = map_of (props ?fa)"
    by auto
  then have 1: "map_of [(''availHeight'', JNum 2), (''plugins'', JArr []), (''x'', JNum 1)]
     = map_of [(''plugins'', JArr []), (''x'', JNum 1), (''availHeight'', JNum 2)]"
    unfolding plain_object_simps .
  from hoisting_order [OF B] rB pB
  have "map_of (props ?fB) ''x'' = Some (JNum 2)"
    unfolding kB by auto
  then have 2: "map_of [(''plugins'', JArr []), (''x'', JNum 2)] ''x'' = Some (JNum 2)"
    unfolding plain_object_simps .
  from 1 2 rA rA' rB show ?thesis by blast
qed

section \<open>The shape of the returned fingerprint\<close>

lemma digit_char_digit: "d < 10 \<Longrightarrow> digit_char d \<in> set ''0123456789''"
  unfolding digit_char_def by (rule nth_mem) simp

lemma show_nat_digits: "set (show_nat n) \<subseteq> set ''0123456789''"
proof (induction n rule: show_nat.induct)
  case (1 n)
  show ?case
  proof (cases "n < 10")
    case True
    with digit_char_digit [of n] show ?thesis
      by (subst show_nat.simps) simp
  next
    case False
    have "n mod 10 < 10" by simp
    from digit_char_digit [OF this] "1" [OF False] False show ?thesis
      by (subst show_nat.simps) simp
  qed
qed

lemma index_key_not_container:
  assumes "k \<in> set (index_keys n)"
  shows "k \<noteq> ''pluginCharacteristics'' \<and> k \<noteq> ''screenCharacteristics'' \<and> k \<noteq> ''__proto__''"
proof -
  from assms obtain i where "k = show_nat i"
    by (auto simp: index_keys_def)
  with show_nat_digits [of i] have "set k \<subseteq> set ''0123456789''" by simp
  then show ?thesis by auto
qed

lemma not_sentinel_char: "\<not> sentinel (JStr [c])"
  by (simp add: sentinel_def startsWith_def STRINGIFIED_PREFIX_def MISSING_VALUE_DATASET_TOKEN_def)

lemma not_sentinel_inherited: "\<not> sentinel (inherited k)"
  by (simp add: inherited_def sentinel_def)

lemma hoistable_JStr: "hoistable (JStr s)"
proof -
  have "\<not> sentinel (prop_of (JStr s) k)" for k
  proof (cases "index_of_key (length s) k")
    case None
    then show ?thesis
      using not_sentinel_inherited [of k] by (simp add: prop_of_def) (simp add: sentinel_def)
  next
    case (Some i)
    then show ?thesis by (simp add: prop_of_def not_sentinel_char)
  qed
  then show ?thesis
    using index_key_not_container [of _ "length s"]
    by (auto simp: hoistable_def list_all_iff for_in_keys_def)
qed

lemma hoistable_JUndefined: "hoistable JUndefined"
  by (simp add: hoistable_def for_in_keys_def)

lemma decoded_attribute_cases:
  assumes "decoded_attribute JSON_parse v0 = Some v"
  obtains s where "v0 = JStr s" and "startsWith s STRINGIFIED_PREFIX"
      and "JSON_parse (drop (length STRINGIFIED_PREFIX) s) = Inr v"
    | s where "v0 = JStr s" and "v = JStr s" and "\<not> sentinel v"
proof -
  from assms obtain s where s: "v0 = JStr s" and m: "s \<noteq> MISSING_VALUE_DATASET_TOKEN"
    by (cases v0) (auto simp: decoded_attribute_def split: if_splits)
  show ?thesis
  proof (cases "startsWith s STRINGIFIED_PREFIX")
    case True
    with assms s m have "JSON_parse (drop (length STRINGIFIED_PREFIX) s) = Inr v"
      by (auto simp: decoded_attribute_def split: sum.splits)
    with s True show ?thesis by (rule that(1))
  next
    case False
    with assms s m have "v = JStr s"
      by (simp add: decoded_attribute_def)
    moreover with False m have "\<not> sentinel v"
      by (simp add: sentinel_def)
    ultimately show ?thesis using s by (intro that(2))
  qed
qed

lemma hoist_clean:
  assumes clean: "\<forall>a v. map_of (props F) a = Some v \<longrightarrow> \<not> sentinel v"
    and h: "hoistable (fp_get F c)"
    and c: "c = ''pluginCharacteristics'' \<or> c = ''screenCharacteristics''"
    and r: "hoist c F = Inr F'"
  shows "(\<forall>a v. map_of (props F') a = Some v \<longrightarrow> \<not> sentinel v)
         \<and> (\<forall>a. (a = ''pluginCharacteristics'' \<or> a = ''screenCharacteristics'') \<and> a \<noteq> c
                \<longrightarrow> map_of (props F') a = map_of (props F) a)
         \<and> map_of (props F') c = None
         \<and> proto F' = proto F"
proof -
  from h have keys: "\<And>k. k \<in> set (hoist_keys c F) \<Longrightarrow>
      k \<noteq> ''pluginCharacteristics'' \<and> k \<noteq> ''screenCharacteristics'' \<and> k \<noteq> ''__proto__''
      \<and> \<not> sentinel (prop_of (fp_get F c) k)"
    by (auto simp: hoistable_def hoist_keys_def list_all_iff split: if_splits)
  with c have "c \<notin> set (hoist_keys c F)" and "''__proto__'' \<notin> set (hoist_keys c F)"
    and "c \<noteq> ''__proto__''"
    by blast+
  from hoist_plain [OF this] r have p: "proto F' = proto F"
    and m: "\<And>a. map_of (props F') a =
      (if a = c then None
       else if a \<in> set (hoist_keys c F) then Some (prop_of (fp_get F c) a)
       else map_of (props F) a)"
    by auto
  show ?thesis
    using keys clean p by (auto simp: m split: if_splits)
qed

lemma acceptedLanguages_strings:
  assumes "acceptedLanguages h = Inr ls"
  shows "list_all (\<lambda>x. \<exists>s. x = JStr s) ls"
  using assms
  by (cases h) (auto simp: acceptedLanguages_def first_part_takeWhile list_all_iff)

text \<open>
  C2, as stated, fails: a string inside a decoded container is hoisted as it is. With
  \<^verbatim>\<open>pluginCharacteristics\<close> decoding to the mapping of \<^verbatim>\<open>plugins\<close> to
  \<^verbatim>\<open>*STRINGIFIED*[1,2,3]\<close>, valid options and a header map with both headers, the returned
  fingerprint has a string value that begins with the stringified prefix.
\<close>

theorem fingerprint_shape_counterexample:
  "snd (getFingerprint
     (example_generator [(''User-Agent'', JStr ''UA''), (''Accept-Language'', JStr ''en'')]
        [(''pluginCharacteristics'', JStr ''*STRINGIFIED*{\"plugins\":\"*STRINGIFIED*[1,2,3]\"}'')])
     example_parse (JObj []) (JObj []))
   = Inr \<lparr>fingerprint =
            \<lparr>props = [(''userAgent'', JStr ''UA''),
                      (''plugins'', JStr ''*STRINGIFIED*[1,2,3]''),
                      (''languages'', JArr [JStr ''en''])],
             proto = Object_prototype\<rparr>,
          headers = [(''User-Agent'', JStr ''UA''), (''Accept-Language'', JStr ''en'')]\<rparr>
   \<and> validate_options (JObj []) = None
   \<and> startsWith ''*STRINGIFIED*[1,2,3]'' STRINGIFIED_PREFIX"
  by code_simp

text \<open>
  C2, amended. The fingerprint of every returning call has no key
  \<^verbatim>\<open>screenCharacteristics\<close> of its own and has \<^verbatim>\<open>languages\<close> at a sequence of strings. When
  moreover every stringified attribute of the sample decodes to a value that is no
  sentinel string, and \<^verbatim>\<open>pluginCharacteristics\<close> and \<^verbatim>\<open>screenCharacteristics\<close>, where
  stringified, decode to values with no property that holds a sentinel string or is
  named \<^verbatim>\<open>pluginCharacteristics\<close>, \<^verbatim>\<open>screenCharacteristics\<close> or \<^verbatim>\<open>__proto__\<close>, then the
  fingerprint has no key \<^verbatim>\<open>pluginCharacteristics\<close> of its own, still has the built-in
  prototype, and none of its values is the missing-value token or a string with the
  stringified prefix.
\<close>

theorem fingerprint_shape:
  assumes ret: "getFingerprint this JSON_parse options requestDependentHeaders = (calls, Inr res)"
    and smp: "fingerprintGeneratorNetwork this [(''userAgent'', userAgent_of (headers res))] = Inr sample"
  shows "\<not> obj_has (props (fingerprint res)) ''screenCharacteristics''
         \<and> (\<exists>ls. map_of (props (fingerprint res)) ''languages'' = Some (JArr ls)
                \<and> list_all (\<lambda>x. \<exists>s. x = JStr s) ls)
         \<and> ((\<forall>a s d. map_of sample a = Some (JStr s) \<and> startsWith s STRINGIFIED_PREFIX
                  \<and> JSON_parse (drop (length STRINGIFIED_PREFIX) s) = Inr d
                  \<longrightarrow> \<not> sentinel d
                      \<and> (a = ''pluginCharacteristics'' \<or> a = ''screenCharacteristics''
                           \<longrightarrow> hoistable d))
             \<longrightarrow> \<not> obj_has (props (fingerprint res)) ''pluginCharacteristics''
                 \<and> proto (fingerprint res) = Object_prototype
                 \<and> (\<forall>a v. map_of (props (fingerprint res)) a = Some v \<longrightarrow> \<not> sentinel v))"
proof -
  let ?p = "''pluginCharacteristics''" and ?s = "''screenCharacteristics''"
  from ret obtain sample' fp ls where
    "fingerprintGeneratorNetwork this [(''userAgent'', userAgent_of (headers res))] = Inr sample'"
    and n': "normalize_sample JSON_parse sample' = Inr fp"
    and ls: "acceptedLanguages (acceptLanguageHeaderValue_of (headers res)) = Inr ls"
    and f: "fingerprint res = fp_set fp ''languages'' (JArr ls)"
    by (rule getFingerprint_returns)
  with smp have n: "normalize_sample JSON_parse sample = Inr fp"
    by simp
  from n obtain fp1 F2 where
    d: "decode_pass JSON_parse sample = Inr fp1"
    and h2: "hoist ?p (plain_object fp1) = Inr F2"
    and h3: "hoist ?s F2 = Inr fp"
    by (rule normalize_sample_returns)
  have 1: "\<not> obj_has (props (fingerprint res)) ?s"
    using hoist_removes [OF h3] by (simp add: f fp_set_languages obj_has_set)
  have 2: "\<exists>ls. map_of (props (fingerprint res)) ''languages'' = Some (JArr ls)
                \<and> list_all (\<lambda>x. \<exists>s. x = JStr s) ls"
    using acceptedLanguages_strings [OF ls] by (simp add: f fp_set_languages map_of_obj_set)
  have 3: "\<not> obj_has (props (fingerprint res)) ?p
           \<and> proto (fingerprint res) = Object_prototype
           \<and> (\<forall>a v. map_of (props (fingerprint res)) a = Some v \<longrightarrow> \<not> sentinel v)"
    if w: "\<forall>a s d. map_of sample a = Some (JStr s) \<and> startsWith s STRINGIFIED_PREFIX
                  \<and> JSON_parse (drop (length STRINGIFIED_PREFIX) s) = Inr d
                  \<longrightarrow> \<not> sentinel d
                      \<and> (a = ''pluginCharacteristics'' \<or> a = ''screenCharacteristics''
                           \<longrightarrow> hoistable d)"
  proof -
    have c1: "\<not> sentinel v \<and> (a = ?p \<or> a = ?s \<longrightarrow> hoistable v)"
      if "map_of fp1 a = Some v" for a v
    proof -
      from that decode_pass_entry [OF d, of a] obtain v0 where
        v0: "map_of sample a = Some v0" "decoded_attribute JSON_parse v0 = Some v"
        by (cases "map_of sample a") auto
      from v0(2) show ?thesis
      proof (cases rule: decoded_attribute_cases)
        case (1 s)
        with w v0(1) show ?thesis by blast
      next
        case (2 s)
        then show ?thesis by (simp add: hoistable_JStr)
      qed
    qed
    have g1: "hoistable (obj_get fp1 k)" if "k = ?p \<or> k = ?s" for k
      using c1 [of k] that
      by (cases "map_of fp1 k") (auto simp: obj_get_def hoistable_JUndefined)
    have cl1: "\<forall>a v. map_of (props (plain_object fp1)) a = Some v \<longrightarrow> \<not> sentinel v"
      using c1 by (simp add: plain_object_simps)
    have pc: "?p = ''pluginCharacteristics'' \<or> ?p = ''screenCharacteristics''"
      and sc: "?s = ''pluginCharacteristics'' \<or> ?s = ''screenCharacteristics''"
      by simp_all
    have gp: "hoistable (fp_get (plain_object fp1) ?p)"
      using g1 [of ?p] by (simp add: plain_object_simps)
    note hc2 = hoist_clean [of "plain_object fp1" ?p F2, OF cl1 gp pc h2]
    from hc2 have c2: "\<forall>a v. map_of (props F2) a = Some v \<longrightarrow> \<not> sentinel v"
      by blast
    from hc2 have s2: "map_of (props F2) ?s = map_of fp1 ?s"
      and p2: "map_of (props F2) ?p = None"
      and r2: "proto F2 = Object_prototype"
      by (simp_all add: plain_object_simps)
    from s2 r2 g1 [of ?s] have g2: "hoistable (fp_get F2 ?s)"
      by (simp add: fp_get_def obj_get_def obj_has_map_of hoistable_JUndefined split: option.splits)
    note hc3 = hoist_clean [of F2 ?s fp, OF c2 g2 sc h3]
    from hc3 have c3: "\<not> sentinel v" if "map_of (props fp) a = Some v" for a v
      using that by blast
    from hc3 p2 r2 have p3: "map_of (props fp) ?p = None" and r3: "proto fp = Object_prototype"
      by simp_all
    from p3 have "\<not> obj_has (props (fingerprint res)) ?p"
      by (simp add: f fp_set_languages obj_has_map_of map_of_obj_set)
    moreover from r3 have "proto (fingerprint res) = Object_prototype"
      by (simp add: f fp_set_languages)
    moreover have "\<not> sentinel v" if "map_of (props (fingerprint res)) a = Some v" for a v
      using that c3 [of a v]
      by (auto simp: f fp_set_languages map_of_obj_set sentinel_def split: if_splits)
    ultimately show ?thesis by blast
  qed
  from 1 2 3 show ?thesis by blast
qed

theorem fingerprint_shape_witness:
  "getFingerprint
     (example_generator [(''User-Agent'', JStr ''UA''), (''Accept-Language'', JStr ''en-US,en;q=0.9'')]
        [(''pluginCharacteristics'', JStr ''*STRINGIFIED*{\"a\":1}''),
         (''webdriver'', JStr ''*MISSING_VALUE*''),
         (''platform'', JStr ''Linux'')])
     example_parse JUndefined JUndefined
   = ([getHeaders (JObj []) (JObj []), generateSample [(''userAgent'', JStr ''UA'')]],
      Inr \<lparr>fingerprint =
             plain_object [(''userAgent'', JStr ''UA''), (''platform'', JStr ''Linux''),
                           (''a'', JNum 1), (''languages'', JArr [JStr ''en-US'', JStr ''en''])],
           headers = [(''User-Agent'', JStr ''UA''), (''Accept-Language'', JStr ''en-US,en;q=0.9'')]\<rparr>)
   \<and> \<not> obj_has [(''userAgent'', JStr ''UA''), (''platform'', JStr ''Linux''),
                 (''a'', JNum 1), (''languages'', JArr [JStr ''en-US'', JStr ''en''])]
         ''screenCharacteristics''
   \<and> \<not> obj_has [(''userAgent'', JStr ''UA''), (''platform'', JStr ''Linux''),
                 (''a'', JNum 1), (''languages'', JArr [JStr ''en-US'', JStr ''en''])]
         ''pluginCharacteristics''
   \<and> \<not> sentinel (JStr ''Linux'')"
proof -
  let ?hs = "[(''User-Agent'', JStr ''UA''), (''Accept-Language'', JStr ''en-US,en;q=0.9'')]"
  let ?extra = "[(''pluginCharacteristics'', JStr ''*STRINGIFIED*{\"a\":1}''),
         (''webdriver'', JStr ''*MISSING_VALUE*''),
         (''platform'', JStr ''Linux'')]"
  let ?sample = "(''userAgent'', JStr ''UA'') # ?extra"
  let ?fp = "[(''userAgent'', JStr ''UA''), (''platform'', JStr ''Linux''),
              (''a'', JNum 1), (''languages'', JArr [JStr ''en-US'', JStr ''en''])]"
  let ?res = "\<lparr>fingerprint = plain_object ?fp, headers = ?hs\<rparr>"
  have run: "getFingerprint (example_generator ?hs ?extra) example_parse JUndefined JUndefined
   = ([getHeaders (JObj []) (JObj []), generateSample [(''userAgent'', JStr ''UA'')]], Inr ?res)"
    by code_simp
  have smp: "fingerprintGeneratorNetwork (example_generator ?hs ?extra)
               [(''userAgent'', userAgent_of (headers ?res))] = Inr ?sample"
    by (simp add: example_generator_def userAgent_of_def obj_has_def obj_get_def)
  have ok: "\<not> sentinel (JObj [(''a'', JNum 1)]) \<and> hoistable (JObj [(''a'', JNum 1)])"
    by code_simp
  have p: "example_parse (drop (length STRINGIFIED_PREFIX) ''*STRINGIFIED*{\"a\":1}'')
             = Inr (JObj [(''a'', JNum 1)])"
    and np: "\<not> startsWith ''UA'' STRINGIFIED_PREFIX"
      "\<not> startsWith ''*MISSING_VALUE*'' STRINGIFIED_PREFIX"
      "\<not> startsWith ''Linux'' STRINGIFIED_PREFIX"
    by code_simp+
  have w: "\<forall>a s d. map_of ?sample a = Some (JStr s) \<and> startsWith s STRINGIFIED_PREFIX
                  \<and> example_parse (drop (length STRINGIFIED_PREFIX) s) = Inr d
                  \<longrightarrow> \<not> sentinel d
                      \<and> (a = ''pluginCharacteristics'' \<or> a = ''screenCharacteristics''
                           \<longrightarrow> hoistable d)"
    using ok p np by (auto split: if_splits)
  note shape = fingerprint_shape [OF run smp]
  from shape w have c: "\<forall>a v. map_of (props (fingerprint ?res)) a = Some v \<longrightarrow> \<not> sentinel v"
    and nop: "\<not> obj_has (props (fingerprint ?res)) ''pluginCharacteristics''"
    by blast+
  from shape have s: "\<not> obj_has (props (fingerprint ?res)) ''screenCharacteristics''"
    by blast
  have "map_of (props (fingerprint ?res)) ''platform'' = Some (JStr ''Linux'')"
    by (simp add: plain_object_simps)
  with c have "\<not> sentinel (JStr ''Linux'')"
    by blast
  with nop s run show ?thesis
    by (simp add: plain_object_simps)
qed

end
